theory Spec2Isabelle
  imports Complex_Main
begin

section \<open>JavaScript values, strings and errors\<close>

text \<open>
  The voicemail pipeline of serverless-connect-voicemail (the handler \<open>process\<close>, the
  Transcribe wrapper \<open>aws/transcribe.js\<close>, the SNS wrapper \<open>aws/sns.js\<close> and
  \<open>agent.sendLoginEvent\<close>) as a shallow embedding.

  A JavaScript string is a \<open>string\<close>: one \<open>char\<close> per UTF-16 code unit, so the
  model covers strings whose code units are below 256. The values that travel through
  the voicemail record are the JSON values of the contact-flow logs; numbers are the
  integers, and \<open>Obj\<close> stands for any plain object.
\<close>

datatype jsval = Undefined | Null | Bool bool | Num int | Str string | Obj

text \<open>\<open>!v\<close> is \<open>\<not> truthy v\<close>.\<close>

fun truthy :: "jsval \<Rightarrow> bool" where
  "truthy Undefined = False"
| "truthy Null = False"
| "truthy (Bool b) = b"
| "truthy (Num n) = (n \<noteq> 0)"
| "truthy (Str s) = (s \<noteq> [])"
| "truthy Obj = True"

definition digit_char :: "nat \<Rightarrow> char" where
  "digit_char d = char_of (48 + d)"

fun show_nat :: "nat \<Rightarrow> string" where
  "show_nat n = (if n < 10 then [digit_char n] else show_nat (n div 10) @ [digit_char (n mod 10)])"

declare show_nat.simps [simp del]

definition show_int :: "int \<Rightarrow> string" where
  "show_int i = (if i < 0 then CHR ''-'' # show_nat (nat (- i)) else show_nat (nat i))"

text \<open>The string a template literal \<open>${v}\<close> or \<open>'...' + v\<close> puts in for a value.\<close>

fun to_string :: "jsval \<Rightarrow> string" where
  "to_string Undefined = ''undefined''"
| "to_string Null = ''null''"
| "to_string (Bool b) = (if b then ''true'' else ''false'')"
| "to_string (Num n) = show_int n"
| "to_string (Str s) = s"
| "to_string Obj = ''[object Object]''"

text \<open>
  An error object is its \<open>name\<close> and its \<open>message\<close>: \<open>new TypeError(m)\<close> is
  \<open>JsError ''TypeError'' m\<close>, \<open>new Error(m)\<close> is \<open>JsError ''Error'' m\<close>, and a
  rejection of a collaborator (the AWS SDK, axios) is whatever error the collaborator
  gives.
\<close>

datatype js_error = JsError (err_name: string) (err_message: string)

abbreviation TypeError :: "string \<Rightarrow> js_error" where
  "TypeError m \<equiv> JsError ''TypeError'' m"

abbreviation Error :: "string \<Rightarrow> js_error" where
  "Error m \<equiv> JsError ''Error'' m"

text \<open>\<open>Error.prototype.toString\<close>, which \<open>${err}\<close> calls.\<close>

definition error_to_string :: "js_error \<Rightarrow> string" where
  "error_to_string e =
     (if err_name e = [] then err_message e
      else if err_message e = [] then err_name e
      else err_name e @ '': '' @ err_message e)"

definition lf :: char where
  "lf = CHR 0x0A"

definition cr :: char where
  "cr = CHR 0x0D"

definition dquote :: char where
  "dquote = CHR 0x22"

section \<open>Regular expressions\<close>

text \<open>
  The regular expressions of the source are matched by backtracking, as
  \<open>RegExp.prototype.exec\<close> does. \<open>ms r (i, s, c)\<close> lists every way \<open>r\<close> can match at
  position \<open>i\<close>, where \<open>s\<close> is the input from \<open>i\<close> on and \<open>c\<close> the captures so far, in
  the order backtracking tries them: the match \<open>exec\<close> reports is the first of the
  list. Only the constructs the source uses are there: a character class, \<open>^\<close> and
  \<open>$\<close> (no \<open>m\<close> flag), sequence, alternative, a greedy \<open>*\<close> and a lazy \<open>*?\<close> of a
  character class, a greedy \<open>?\<close>, and a capture group.
\<close>

type_synonym cclass = "char \<Rightarrow> bool"

definition in_range :: "char \<Rightarrow> char \<Rightarrow> cclass" where
  "in_range lo hi c = ((of_char lo :: nat) \<le> of_char c \<and> (of_char c :: nat) \<le> of_char hi)"

text \<open>\<open>.\<close> matches any code unit but a line terminator.\<close>

definition dot :: cclass where
  "dot c = (c \<noteq> lf \<and> c \<noteq> cr)"

text \<open>\<open>\d\<close>\<close>

definition digit :: cclass where
  "digit c = in_range CHR ''0'' CHR ''9'' c"

definition lit :: "char \<Rightarrow> cclass" where
  "lit a c = (c = a)"

datatype regex =
    Cls cclass
  | Bol
  | Eol
  | Seq regex regex
  | Alt regex regex
  | Star cclass
  | LazyStar cclass
  | Opt regex
  | Group nat regex

type_synonym captures = "nat \<rightharpoonup> string"
type_synonym mstate = "nat \<times> string \<times> captures"

fun star :: "cclass \<Rightarrow> nat \<Rightarrow> string \<Rightarrow> (nat \<times> string) list" where
  "star p i [] = [(i, [])]"
| "star p i (x # xs) = (if p x then star p (Suc i) xs else []) @ [(i, x # xs)]"

fun lazy_star :: "cclass \<Rightarrow> nat \<Rightarrow> string \<Rightarrow> (nat \<times> string) list" where
  "lazy_star p i [] = [(i, [])]"
| "lazy_star p i (x # xs) = (i, x # xs) # (if p x then lazy_star p (Suc i) xs else [])"

fun ms :: "regex \<Rightarrow> mstate \<Rightarrow> mstate list" where
  "ms (Cls p) (i, s, c) =
     (case s of [] \<Rightarrow> [] | x # xs \<Rightarrow> if p x then [(Suc i, xs, c)] else [])"
| "ms Bol (i, s, c) = (if i = 0 then [(i, s, c)] else [])"
| "ms Eol (i, s, c) = (if s = [] then [(i, s, c)] else [])"
| "ms (Seq a b) st = concat (map (ms b) (ms a st))"
| "ms (Alt a b) st = ms a st @ ms b st"
| "ms (Star p) (i, s, c) = map (\<lambda>(j, r). (j, r, c)) (star p i s)"
| "ms (LazyStar p) (i, s, c) = map (\<lambda>(j, r). (j, r, c)) (lazy_star p i s)"
| "ms (Opt a) st = ms a st @ [st]"
| "ms (Group n a) (i, s, c) = map (\<lambda>(j, r, c'). (j, r, c'(n \<mapsto> take (j - i) s))) (ms a (i, s, c))"

text \<open>
  \<open>re.exec(s)\<close> and \<open>s.match(re)\<close> for a regular expression without the \<open>g\<close> flag:
  the first start position with a match, and there the first match. The result is the
  matched text and the captures; \<open>None\<close> is \<open>null\<close>.
\<close>

fun exec_from :: "regex \<Rightarrow> nat \<Rightarrow> string \<Rightarrow> (string \<times> captures) option" where
  "exec_from r i [] =
     (case ms r (i, [], Map.empty) of [] \<Rightarrow> None | (j, _, c) # _ \<Rightarrow> Some ([], c))"
| "exec_from r i (x # xs) =
     (case ms r (i, x # xs, Map.empty) of
        [] \<Rightarrow> exec_from r (Suc i) xs
      | (j, _, c) # _ \<Rightarrow> Some (take (j - i) (x # xs), c))"

definition exec :: "regex \<Rightarrow> string \<Rightarrow> (string \<times> captures) option" where
  "exec r s = exec_from r 0 s"

text \<open>
  \<open>s.replace(re, t)\<close> for a regular expression with the \<open>g\<close> flag that is one
  character class: every code unit of the class becomes \<open>t\<close>.
\<close>

definition replace_all :: "cclass \<Rightarrow> string \<Rightarrow> string \<Rightarrow> string" where
  "replace_all p t s = concat (map (\<lambda>c. if p c then t else [c]) s)"

section \<open>The strings of the pipeline\<close>

subsection \<open>\<open>contactIdFromObjectKey\<close>\<close>

text \<open>\<open>[a-zA-Z0-9-]\<close>\<close>

definition contact_id_char :: cclass where
  "contact_id_char c =
     (in_range CHR ''a'' CHR ''z'' c \<or> in_range CHR ''A'' CHR ''Z'' c \<or>
      in_range CHR ''0'' CHR ''9'' c \<or> c = CHR ''-'')"

text \<open>\<open>/.*\/([a-zA-Z0-9-]+)_.*/\<close>\<close>

definition object_key_tail :: regex where
  "object_key_tail =
     Seq (Cls (lit CHR ''/''))
       (Seq (Group 1 (Seq (Cls contact_id_char) (Star contact_id_char)))
         (Seq (Cls (lit CHR ''_'')) (Star dot)))"

definition object_key_regex :: regex where
  "object_key_regex = Seq (Star dot) object_key_tail"

text \<open>
  \<open>let [, contactId] = re.exec(objectKey) || []\<close>: with no match \<open>contactId\<close> is
  undefined, and the function throws.
\<close>

definition contactIdFromObjectKey :: "string \<Rightarrow> js_error + string" where
  "contactIdFromObjectKey objectKey =
     (case exec object_key_regex objectKey of
        None \<Rightarrow> Inl (TypeError ''Unexpected objectKey format'')
      | Some (_, c) \<Rightarrow>
          (case c 1 of
             None \<Rightarrow> Inl (TypeError ''Unexpected objectKey format'')
           | Some contactId \<Rightarrow> Inr contactId))"

subsection \<open>\<open>formatPhoneNumber\<close>\<close>

text \<open>\<open>/\+61(\d+)/\<close>\<close>

definition intl_prefix_regex :: regex where
  "intl_prefix_regex =
     Seq (Cls (lit CHR ''+'')) (Seq (Cls (lit CHR ''6'')) (Seq (Cls (lit CHR ''1''))
       (Group 1 (Seq (Cls digit) (Star digit)))))"

text \<open>\<open>/^(04\d{2})(\d{3})(\d{3})$/\<close>\<close>

definition mobile_regex :: regex where
  "mobile_regex =
     Seq Bol
       (Seq (Group 1 (Seq (Cls (lit CHR ''0'')) (Seq (Cls (lit CHR ''4''))
               (Seq (Cls digit) (Cls digit)))))
         (Seq (Group 2 (Seq (Cls digit) (Seq (Cls digit) (Cls digit))))
           (Seq (Group 3 (Seq (Cls digit) (Seq (Cls digit) (Cls digit)))) Eol)))"

text \<open>\<open>/^(\d{2})(\d{4})(\d{4})$/\<close>\<close>

definition national_regex :: regex where
  "national_regex =
     Seq Bol
       (Seq (Group 1 (Seq (Cls digit) (Cls digit)))
         (Seq (Group 2 (Seq (Cls digit) (Seq (Cls digit) (Seq (Cls digit) (Cls digit)))))
           (Seq (Group 3 (Seq (Cls digit) (Seq (Cls digit) (Seq (Cls digit) (Cls digit)))))
              Eol)))"

text \<open>\<open>match[n]\<close> of a match: the capture, in a template literal.\<close>

definition group :: "captures \<Rightarrow> nat \<Rightarrow> string" where
  "group c n = (case c n of None \<Rightarrow> ''undefined'' | Some t \<Rightarrow> t)"

definition formatPhoneNumber :: "string \<Rightarrow> string" where
  "formatPhoneNumber phoneNumber =
     (let formattedNumber =
            (case exec intl_prefix_regex phoneNumber of
               None \<Rightarrow> phoneNumber
             | Some (_, c) \<Rightarrow> ''0'' @ group c 1);
          m = (case exec mobile_regex formattedNumber of
                 None \<Rightarrow> exec national_regex formattedNumber
               | Some r \<Rightarrow> Some r)
      in case m of
           None \<Rightarrow> formattedNumber
         | Some (_, c) \<Rightarrow> group c 1 @ '' '' @ group c 2 @ '' '' @ group c 3)"

subsection \<open>\<open>_normalisedJobName\<close> and \<open>_getFileParts\<close>\<close>

text \<open>\<open>[0-9a-zA-Z._-]\<close>, the class that \<open>/[^0-9a-zA-Z._-]/g\<close> negates.\<close>

definition job_name_char :: cclass where
  "job_name_char c =
     (in_range CHR ''0'' CHR ''9'' c \<or> in_range CHR ''a'' CHR ''z'' c \<or>
      in_range CHR ''A'' CHR ''Z'' c \<or> c = CHR ''.'' \<or> c = CHR ''_'' \<or> c = CHR ''-'')"

definition normalisedJobName :: "string \<Rightarrow> string" where
  "normalisedJobName jobName = replace_all (\<lambda>c. \<not> job_name_char c) ''_'' jobName"

text \<open>\<open>/(.*[\\\/])?(.+?)\.([^.]*$|$)/\<close>\<close>

definition file_parts_regex :: regex where
  "file_parts_regex =
     Seq (Opt (Group 1 (Seq (Star dot) (Cls (\<lambda>c. c = CHR 0x5C \<or> c = CHR ''/'')))))
       (Seq (Group 2 (Seq (Cls dot) (LazyStar dot)))
         (Seq (Cls (lit CHR ''.''))
           (Group 3 (Alt (Seq (Star (\<lambda>c. c \<noteq> CHR ''.'')) Eol) Eol))))"

text \<open>
  \<open>_getFileParts\<close> gives \<open>{path, extension, filename}\<close>, each \<open>null\<close> when the
  regular expression does not match; a group that took no part in the match is
  \<open>undefined\<close>.
\<close>

definition capture_val :: "captures \<Rightarrow> nat \<Rightarrow> jsval" where
  "capture_val c n = (case c n of None \<Rightarrow> Undefined | Some t \<Rightarrow> Str t)"

definition getFileParts :: "string \<Rightarrow> jsval \<times> jsval \<times> jsval" where
  "getFileParts fileUri =
     (case exec file_parts_regex fileUri of
        None \<Rightarrow> (Null, Null, Null)
      | Some (_, c) \<Rightarrow> (capture_val c 1, capture_val c 3, capture_val c 2))"

section \<open>Collaborators, configuration and the state of one invocation\<close>

text \<open>
  Every request the code sends to a collaborator, and every timer it sets, is a
  \<open>call\<close>; an invocation records them in the order it issues them.
\<close>

datatype call =
    SnsPublish jsval jsval string
  | FilterLogEvents jsval string int
  | StartTranscriptionJob string jsval string
  | GetTranscriptionJob string
  | Wait rat
  | HttpGet string
  | GetSignedUrl string jsval jsval "int option"

text \<open>
  \<open>SnsPublish\<close> carries \<open>TopicArn\<close>, \<open>Subject\<close> and \<open>Message\<close>;
  \<open>FilterLogEvents\<close> the log group, the filter pattern and the start time;
  \<open>StartTranscriptionJob\<close> \<open>MediaFileUri\<close>, \<open>MediaFormat\<close> and the job name (the
  language code is the constant \<open>en-US\<close>); \<open>Wait\<close> the milliseconds of \<open>_wait\<close>;
  \<open>GetSignedUrl\<close> the operation, \<open>Bucket\<close>, \<open>Key\<close> and \<open>Expires\<close>. The
  milliseconds are rational numbers: the division of \<open>awaitJob\<close> is exact, as the
  floating-point division is for the budget of the handler.
\<close>

record job =
  TranscriptionJobName :: string
  TranscriptionJobStatus :: string
  FailureReason :: jsval
  TranscriptFileUri :: "string option"

text \<open>
  \<open>TranscriptFileUri\<close> is \<open>job.Transcript.TranscriptFileUri\<close>, \<open>None\<close> when the job
  has no \<open>Transcript\<close>.

  An entry of the log search is what \<open>JSON.parse(event.message).Parameters\<close>
  destructures to, \<open>(Key, Value)\<close>, or the error that line throws.
\<close>

type_synonym log_event = "js_error + (string \<times> jsval)"

text \<open>A luxon \<open>DateTime\<close>, as the code builds it.\<close>

datatype datetime = FromISO jsval | LocalPlusDays int "int option"

text \<open>
  The world outside the code. A collaborator answers a request with an error (the
  promise rejects) or a result; the answer may depend on everything the invocation has
  asked so far, the request itself last. The fields are the AWS SDK clients, axios,
  the clock and two library functions: \<open>decodeURIComponent\<close>, and luxon's
  \<open>setZone(zone).toFormat('ccc LLL d, h:mm a ZZZZ')\<close>. The collaborators keep their
  contracts: a job is an object, the log search gives an array of events, the
  transcript document holds \<open>results.transcripts\<close>, given here by the \<open>transcript\<close>
  field of each entry.
\<close>

record world =
  decodeURIComponent :: "string \<Rightarrow> js_error + string"
  now_millis :: "call list \<Rightarrow> int"
  format_date :: "jsval \<Rightarrow> datetime \<Rightarrow> string"
  sns_publish_reply :: "call list \<Rightarrow> js_error + jsval"
  filter_log_events_reply :: "call list \<Rightarrow> js_error + log_event list"
  start_job_reply :: "call list \<Rightarrow> js_error + job"
  get_job_reply :: "call list \<Rightarrow> js_error + job"
  http_get_reply :: "call list \<Rightarrow> js_error + jsval list"
  signed_url_reply :: "call list \<Rightarrow> js_error + jsval"

text \<open>
  The environment variables; one that is not set is \<open>Undefined\<close>, and
  \<open>LINK_EXPIRY_IN_DAYS\<close> is what \<open>parseInt\<close> made of it, \<open>None\<close> for \<open>NaN\<close>.
\<close>

record config =
  CONNECT_LOG_GROUP :: jsval
  NOTIFICATION_TOPIC :: jsval
  AGENT_LOGIN_TOPIC :: jsval
  NOTIFICATION_TIMEZONE :: jsval
  LINK_EXPIRY_IN_DAYS :: "int option"

definition LINK_EXPIRY_IN_SECONDS :: "config \<Rightarrow> int option" where
  "LINK_EXPIRY_IN_SECONDS cfg = map_option (\<lambda>d. d * 86400) (LINK_EXPIRY_IN_DAYS cfg)"

definition TRANSCRIBE_WAIT_SECONDS :: rat where
  "TRANSCRIBE_WAIT_SECONDS = 240"

definition VOICEMAIL_PROCESSED_EVENT :: string where
  "VOICEMAIL_PROCESSED_EVENT = ''VOICEMAIL_PROCESSED''"

definition SEARCH_PERIOD_IN_DAYS :: int where
  "SEARCH_PERIOD_IN_DAYS = 1"

definition INITIAL_WAIT_MS :: rat where
  "INITIAL_WAIT_MS = 60000"

definition TRANSCRIBE_PENDING :: string where
  "TRANSCRIBE_PENDING = ''IN_PROGRESS''"

definition TRANSCRIBE_COMPLETED :: string where
  "TRANSCRIBE_COMPLETED = ''COMPLETED''"

definition TRANSCRIBE_FAILED :: string where
  "TRANSCRIBE_FAILED = ''FAILED''"

text \<open>
  What one invocation has done so far: the calls it issued, the error objects its
  \<open>catch\<close> clauses wrote to the console (\<open>console.log(err)\<close>, \<open>console.error(err)\<close>;
  the other console lines are not modelled), and the rejections of promises that
  nothing awaits or handles.
\<close>

record run =
  calls :: "call list"
  console_errors :: "js_error list"
  unhandled_rejections :: "js_error list"

definition start_run :: run where
  "start_run = \<lparr>calls = [], console_errors = [], unhandled_rejections = []\<rparr>"

definition issue :: "call \<Rightarrow> run \<Rightarrow> run" where
  "issue c st = st\<lparr>calls := calls st @ [c]\<rparr>"

text \<open>
  An \<open>async\<close> function is a function that gives the settled outcome of its promise,
  and the state after the part of its body that has run; \<open>await\<close> is the case
  distinction on the outcome.
\<close>

type_synonym 'a outcome = "js_error + 'a"

section \<open>\<open>aws/sns.js\<close>, \<open>aws/cwl.js\<close>, \<open>aws/s3.js\<close> and \<open>agent.sendLoginEvent\<close>\<close>

definition publish :: "world \<Rightarrow> jsval \<Rightarrow> string \<Rightarrow> jsval \<Rightarrow> run \<Rightarrow> jsval outcome \<times> run" where
  "publish w topicArn message subject st =
     (if message = [] then (Inl (TypeError ''Need a non-empty message''), st)
      else let st' = issue (SnsPublish topicArn subject message) st
           in (sns_publish_reply w (calls st'), st'))"

definition filterLogEvents ::
  "world \<Rightarrow> jsval \<Rightarrow> string \<Rightarrow> int \<Rightarrow> run \<Rightarrow> log_event list outcome \<times> run" where
  "filterLogEvents w logGroupName filterPattern startTime st =
     (let st' = issue (FilterLogEvents logGroupName filterPattern startTime) st
      in (filter_log_events_reply w (calls st'), st'))"

definition getSignedUrl ::
  "world \<Rightarrow> string \<Rightarrow> jsval \<Rightarrow> jsval \<Rightarrow> int option \<Rightarrow> run \<Rightarrow> jsval outcome \<times> run" where
  "getSignedUrl w operation bucketName objectKey expirySeconds st =
     (let st' = issue (GetSignedUrl operation bucketName objectKey expirySeconds) st
      in (signed_url_reply w (calls st'), st'))"

text \<open>
  \<open>sendLoginEvent(params)\<close> publishes \<open>JSON.stringify(params)\<close> with no subject; the
  argument here is that JSON text.
\<close>

definition sendLoginEvent :: "world \<Rightarrow> config \<Rightarrow> string \<Rightarrow> run \<Rightarrow> jsval outcome \<times> run" where
  "sendLoginEvent w cfg params st = publish w (AGENT_LOGIN_TOPIC cfg) params Undefined st"

section \<open>\<open>aws/transcribe.js\<close>\<close>

text \<open>
  \<open>startJob({mediaFileUri, mediaFormat})\<close>. \<open>fileUri.match\<close> throws a TypeError when
  the URI is not a string.
\<close>

definition startJob :: "world \<Rightarrow> jsval \<Rightarrow> jsval \<Rightarrow> run \<Rightarrow> job outcome \<times> run" where
  "startJob w mediaFileUri mediaFormat st =
     (case mediaFileUri of
        Str uri \<Rightarrow>
          (let (path, extension, filename) = getFileParts uri;
               mediaFormat' =
                 (if truthy mediaFormat then mediaFormat
                  else if truthy extension then extension else Str ''wav'');
               timestamp = now_millis w (calls st);
               st' = issue (StartTranscriptionJob uri mediaFormat'
                       (normalisedJobName (to_string filename @ ''_'' @ show_int timestamp))) st
           in (start_job_reply w (calls st'), st'))
      | _ \<Rightarrow> (Inl (TypeError ''fileUri.match is not a function''), st))"

definition wait :: "rat \<Rightarrow> run \<Rightarrow> run" where
  "wait ms' st = issue (Wait ms') st"

text \<open>
  The \<open>while (triesLeft > 0)\<close> loop of \<open>awaitJob\<close>, from the state where \<open>triesLeft\<close>
  and \<open>job\<close> have the given values; \<open>job\<close> is \<open>None\<close> while it is \<open>null\<close>. The result
  is the value of \<open>job\<close> after the loop.
\<close>

fun poll :: "world \<Rightarrow> string \<Rightarrow> rat \<Rightarrow> nat \<Rightarrow> job option \<Rightarrow> run \<Rightarrow> job option outcome \<times> run" where
  "poll w jobName waitBetweenRetries 0 job st = (Inr job, st)"
| "poll w jobName waitBetweenRetries (Suc triesLeft) job st =
     (let st' = issue (GetTranscriptionJob jobName) st
      in case get_job_reply w (calls st') of
           Inl e \<Rightarrow> (Inl e, st')
         | Inr j \<Rightarrow>
             if TRANSCRIBE_PENDING \<noteq> TranscriptionJobStatus j then (Inr (Some j), st')
             else poll w jobName waitBetweenRetries triesLeft (Some j)
                    (wait waitBetweenRetries st'))"

text \<open>The statements of \<open>awaitJob\<close> after the loop.\<close>

definition after_poll :: "world \<Rightarrow> job option \<Rightarrow> run \<Rightarrow> jsval outcome \<times> run" where
  "after_poll w job st =
     (case job of
        None \<Rightarrow> (Inl (TypeError ''Cannot read property TranscriptionJobStatus of null''), st)
      | Some j \<Rightarrow>
          if TRANSCRIBE_COMPLETED = TranscriptionJobStatus j then
            (case TranscriptFileUri j of
               None \<Rightarrow> (Inl (TypeError ''Cannot read property TranscriptFileUri of undefined''), st)
             | Some transcriptUrl \<Rightarrow>
                 (let st' = issue (HttpGet transcriptUrl) st
                  in case http_get_reply w (calls st') of
                       Inl e \<Rightarrow> (Inl e, st')
                     | Inr transcripts \<Rightarrow>
                         (case transcripts of
                            [] \<Rightarrow> (Inr Undefined, st')
                          | t # _ \<Rightarrow> (Inr t, st'))))
          else if TRANSCRIBE_FAILED = TranscriptionJobStatus j then
            (Inl (Error (''Transcription failure: '' @ to_string (FailureReason j))), st)
          else (Inr Undefined, st))"

definition awaitJob :: "world \<Rightarrow> string \<Rightarrow> rat \<Rightarrow> run \<Rightarrow> jsval outcome \<times> run" where
  "awaitJob w jobName waitSeconds st =
     (let st0 = wait INITIAL_WAIT_MS st;
          triesLeft = 6;
          waitBetweenRetries = (waitSeconds * 1000 - INITIAL_WAIT_MS) / of_nat triesLeft
      in case poll w jobName waitBetweenRetries triesLeft None st0 of
           (Inl e, st') \<Rightarrow> (Inl e, st')
         | (Inr job, st') \<Rightarrow> after_poll w job st')"

section \<open>The handler\<close>

text \<open>
  The voicemail record is an object that \<open>addCallAttributes\<close> merges the call
  attributes into, whatever their keys: a map from property names to values. Reading
  a property that is not there gives \<open>undefined\<close>.
\<close>

type_synonym voicemail = "string \<rightharpoonup> jsval"

definition get_prop :: "voicemail \<Rightarrow> string \<Rightarrow> jsval" where
  "get_prop v k = (case v k of None \<Rightarrow> Undefined | Some x \<Rightarrow> x)"

text \<open>\<open>event.Records[0]\<close> of the S3 notification.\<close>

record s3_record =
  bucket_name :: string
  eventTime :: string
  object_key :: string

definition getS3ObjectInfo :: "world \<Rightarrow> s3_record \<Rightarrow> js_error + voicemail" where
  "getS3ObjectInfo w eventRecord =
     (let bucketName = bucket_name eventRecord;
          creationDate = eventTime eventRecord;
          urlEncodedObjectKey = replace_all (lit CHR ''+'') '' '' (object_key eventRecord)
      in case decodeURIComponent w urlEncodedObjectKey of
           Inl e \<Rightarrow> Inl e
         | Inr objectKey \<Rightarrow>
             Inr [''bucketName'' \<mapsto> Str bucketName,
                  ''creationDate'' \<mapsto> Str creationDate,
                  ''objectKey'' \<mapsto> Str objectKey,
                  ''objectUrl'' \<mapsto>
                     Str (''https://'' @ bucketName @ ''.s3.amazonaws.com/'' @ objectKey),
                  ''consoleUrl'' \<mapsto>
                     Str (''https://s3.console.aws.amazon.com/s3/object/'' @ bucketName @ ''/''
                          @ objectKey)])"

text \<open>\<open>phoneNumber.match\<close> throws a TypeError when the value is not a string.\<close>

definition formatAttribute :: "string \<Rightarrow> jsval \<Rightarrow> js_error + jsval" where
  "formatAttribute key v =
     (if key = ''callingNumber'' then
        (case v of
           Str phoneNumber \<Rightarrow> Inr (Str (formatPhoneNumber phoneNumber))
         | _ \<Rightarrow> Inl (TypeError ''phoneNumber.match is not a function''))
      else Inr v)"

text \<open>The \<open>for\<close> loop of \<open>parseCallAttributes\<close>, from the given \<open>attributes\<close>.\<close>

fun parse_events :: "log_event list \<Rightarrow> voicemail \<Rightarrow> js_error + voicemail" where
  "parse_events [] attributes = Inr attributes"
| "parse_events (e # es) attributes =
     (case e of
        Inl err \<Rightarrow> Inl err
      | Inr (Key, Value) \<Rightarrow>
          (case formatAttribute Key Value of
             Inl err \<Rightarrow> Inl err
           | Inr v \<Rightarrow> parse_events es (attributes(Key \<mapsto> v))))"

definition parseCallAttributes :: "log_event list \<Rightarrow> js_error + voicemail" where
  "parseCallAttributes events = parse_events events Map.empty"

text \<open>
  The start time is \<open>DateTime.local().minus({days: SEARCH_PERIOD_IN_DAYS}).toMillis()\<close>,
  a day being 86400000 ms.
\<close>

definition getContactFlowLogs ::
  "world \<Rightarrow> config \<Rightarrow> jsval \<Rightarrow> run \<Rightarrow> log_event list outcome \<times> run" where
  "getContactFlowLogs w cfg contactId st =
     filterLogEvents w (CONNECT_LOG_GROUP cfg)
       (''{'' @ [lf] @ ''      ($.ContactId = '' @ [dquote] @ to_string contactId @ [dquote]
          @ '') &&'' @ [lf] @ ''        ($.ContactFlowModuleType = '' @ [dquote]
          @ ''SetAttributes'' @ [dquote] @ '')'' @ [lf] @ ''    }'')
       (now_millis w (calls st) - SEARCH_PERIOD_IN_DAYS * 86400000) st"

text \<open>\<open>{...voicemail, ...parseCallAttributes(events)}\<close>: an attribute wins over a property.\<close>

definition addCallAttributes ::
  "world \<Rightarrow> config \<Rightarrow> voicemail \<Rightarrow> run \<Rightarrow> voicemail outcome \<times> run" where
  "addCallAttributes w cfg voicemail st =
     (case getContactFlowLogs w cfg (get_prop voicemail ''contactId'') st of
        (Inl e, st') \<Rightarrow> (Inl e, st')
      | (Inr events, st') \<Rightarrow>
          (case parseCallAttributes events of
             Inl e \<Rightarrow> (Inl e, st')
           | Inr attributes \<Rightarrow> (Inr (voicemail ++ attributes), st')))"

definition transcribeRecording :: "world \<Rightarrow> voicemail \<Rightarrow> run \<Rightarrow> jsval outcome \<times> run" where
  "transcribeRecording w voicemail st =
     (case startJob w (get_prop voicemail ''objectUrl'') Undefined st of
        (Inl e, st') \<Rightarrow> (Inl e, st')
      | (Inr job, st') \<Rightarrow> awaitJob w (TranscriptionJobName job) TRANSCRIBE_WAIT_SECONDS st')"

definition getPresignedS3Url ::
  "world \<Rightarrow> config \<Rightarrow> voicemail \<Rightarrow> run \<Rightarrow> jsval outcome \<times> run" where
  "getPresignedS3Url w cfg voicemail st =
     getSignedUrl w ''getObject'' (get_prop voicemail ''bucketName'') (get_prop voicemail ''objectKey'')
       (LINK_EXPIRY_IN_SECONDS cfg) st"

definition notificationSubject :: "voicemail \<Rightarrow> string" where
  "notificationSubject voicemail =
     (let purpose = get_prop voicemail ''purpose'';
          purposeString = (if truthy purpose then '' '' @ to_string purpose else [])
      in ''['' @ purposeString @ ''] Voice-mail from ''
         @ to_string (get_prop voicemail ''callingNumber''))"

definition formatDate :: "world \<Rightarrow> config \<Rightarrow> datetime \<Rightarrow> string" where
  "formatDate w cfg dateTime = format_date w (NOTIFICATION_TIMEZONE cfg) dateTime"

definition notificationMessage :: "world \<Rightarrow> config \<Rightarrow> voicemail \<Rightarrow> run \<Rightarrow> string" where
  "notificationMessage w cfg voicemail st =
     (let creationDate = formatDate w cfg (FromISO (get_prop voicemail ''creationDate''));
          expiryDate =
            formatDate w cfg (LocalPlusDays (now_millis w (calls st)) (LINK_EXPIRY_IN_DAYS cfg))
      in [lf] @ ''Caller: '' @ to_string (get_prop voicemail ''callingNumber'') @ [lf]
         @ ''Called at: '' @ creationDate @ [lf]
         @ ''Purpose: '' @ to_string (get_prop voicemail ''purpose'') @ [lf]
         @ [lf]
         @ ''Transcript:'' @ [lf]
         @ ''==========='' @ [lf]
         @ to_string (get_prop voicemail ''transcript'') @ [lf]
         @ ''==========='' @ [lf]
         @ [lf]
         @ ''Download (valid until '' @ expiryDate @ ''): ''
         @ to_string (get_prop voicemail ''preSignedUrl'') @ [lf]
         @ [lf]
         @ ''-'' @ [lf]
         @ [lf]
         @ ''Download (requires log-in): '' @ to_string (get_prop voicemail ''consoleUrl'') @ [lf]
         @ [lf]
         @ replicate 80 CHR ''='' @ [lf])"

definition sendNotification :: "world \<Rightarrow> config \<Rightarrow> voicemail \<Rightarrow> run \<Rightarrow> jsval outcome \<times> run" where
  "sendNotification w cfg voicemail st =
     publish w (NOTIFICATION_TOPIC cfg) (notificationMessage w cfg voicemail st)
       (Str (notificationSubject voicemail)) st"

text \<open>\<open>{success: true}\<close>\<close>

datatype handler_result = Success

text \<open>
  The first three statements of the second \<open>try\<close> block of \<open>process\<close>: the record
  of the S3 object, its contact id, and the call attributes merged in.
\<close>

definition enrich :: "world \<Rightarrow> config \<Rightarrow> s3_record \<Rightarrow> run \<Rightarrow> voicemail outcome \<times> run" where
  "enrich w cfg eventRecord st =
     (case getS3ObjectInfo w eventRecord of
        Inl e \<Rightarrow> (Inl e, st)
      | Inr voicemail \<Rightarrow>
          (case contactIdFromObjectKey (to_string (get_prop voicemail ''objectKey'')) of
             Inl e \<Rightarrow> (Inl e, st)
           | Inr contactId \<Rightarrow>
               addCallAttributes w cfg (voicemail(''contactId'' \<mapsto> Str contactId)) st))"

text \<open>The statements of the second \<open>try\<close> block of \<open>process\<close>.\<close>

definition pipeline ::
  "world \<Rightarrow> config \<Rightarrow> s3_record \<Rightarrow> run \<Rightarrow> handler_result outcome \<times> run" where
  "pipeline w cfg eventRecord st =
     (case enrich w cfg eventRecord st of
        (Inl e, st1) \<Rightarrow> (Inl e, st1)
      | (Inr voicemail, st1) \<Rightarrow>
          if \<not> truthy (get_prop voicemail ''voicemail'') then (Inr Success, st1)
          else
     (case transcribeRecording w voicemail st1 of
        (Inl e, st2) \<Rightarrow> (Inl e, st2)
      | (Inr transcript, st2) \<Rightarrow>
     (case getPresignedS3Url w cfg (voicemail(''transcript'' \<mapsto> transcript)) st2 of
        (Inl e, st3) \<Rightarrow> (Inl e, st3)
      | (Inr preSignedUrl, st3) \<Rightarrow>
     (case sendNotification w cfg
             (voicemail(''transcript'' \<mapsto> transcript, ''preSignedUrl'' \<mapsto> preSignedUrl)) st3 of
        (Inl e, st4) \<Rightarrow> (Inl e, st4)
      | (Inr _, st4) \<Rightarrow> (Inr Success, st4)))))"

text \<open>
  The \<open>catch\<close> clause of the second \<open>try\<close> block: the error goes to the console, the
  alert is published and awaited, and \<open>throw err\<close> comes after it. When the publish
  rejects, the \<open>await\<close> throws its error and \<open>throw err\<close> is not reached.
\<close>

definition alert_message :: "js_error \<Rightarrow> string" where
  "alert_message err =
     ''Voicemail processing encountered an error:'' @ [lf] @ replicate 8 CHR '' ''
     @ error_to_string err"

definition on_failure ::
  "world \<Rightarrow> config \<Rightarrow> js_error \<Rightarrow> run \<Rightarrow> handler_result outcome \<times> run" where
  "on_failure w cfg err st =
     (let st1 = st\<lparr>console_errors := console_errors st @ [err]\<rparr>
      in case publish w (NOTIFICATION_TOPIC cfg) (alert_message err)
                (Str ''Voicemail processing failure'') st1 of
           (Inl e, st2) \<Rightarrow> (Inl e, st2)
         | (Inr _, st2) \<Rightarrow> (Inl err, st2))"

text \<open>
  The first \<open>try\<close> block of \<open>process\<close> calls \<open>agent.sendLoginEvent\<close>, an \<open>async\<close>
  function, and does not await the promise it returns: the call itself never throws,
  the block completes, and its \<open>catch\<close> clause with \<open>console.log(err)\<close> never runs. A
  rejection of that promise is handled by nothing.
\<close>

definition login_params :: string where
  "login_params = ''{'' @ [dquote] @ ''event'' @ [dquote] @ '':'' @ [dquote]
     @ VOICEMAIL_PROCESSED_EVENT @ [dquote] @ ''}''"

definition signal_agent :: "world \<Rightarrow> config \<Rightarrow> run \<Rightarrow> run" where
  "signal_agent w cfg st =
     (case sendLoginEvent w cfg login_params st of
        (Inl e, st') \<Rightarrow> st'\<lparr>unhandled_rejections := unhandled_rejections st' @ [e]\<rparr>
      | (Inr _, st') \<Rightarrow> st')"

text \<open>\<open>process(event)\<close>, for \<open>event.Records[0]\<close>.\<close>

definition process :: "world \<Rightarrow> config \<Rightarrow> s3_record \<Rightarrow> handler_result outcome \<times> run" where
  "process w cfg eventRecord =
     (case pipeline w cfg eventRecord (signal_agent w cfg start_run) of
        (Inr r, st) \<Rightarrow> (Inr r, st)
      | (Inl err, st) \<Rightarrow> on_failure w cfg err st)"

section \<open>Observations on a run\<close>

text \<open>
  \<open>issued st st'\<close> are the calls issued between the states \<open>st\<close> and \<open>st'\<close> of one
  invocation; \<open>waits\<close> are the milliseconds of the \<open>_wait\<close> calls among them.
\<close>

definition issued :: "run \<Rightarrow> run \<Rightarrow> call list" where
  "issued st st' = drop (length (calls st)) (calls st')"

fun wait_ms :: "call \<Rightarrow> rat list" where
  "wait_ms (Wait t) = [t]"
| "wait_ms _ = []"

definition waits :: "call list \<Rightarrow> rat list" where
  "waits cs = concat (map wait_ms cs)"

text \<open>
  The publishes among the calls, with their topic and subject; the alert of the
  \<open>catch\<close> clause is the publish whose subject is \<open>Voicemail processing failure\<close>.
\<close>

fun is_publish :: "call \<Rightarrow> bool" where
  "is_publish (SnsPublish t s m) = True"
| "is_publish _ = False"

fun is_alert :: "call \<Rightarrow> bool" where
  "is_alert (SnsPublish t s m) = (s = Str ''Voicemail processing failure'')"
| "is_alert _ = False"

fun topic_of :: "call \<Rightarrow> jsval" where
  "topic_of (SnsPublish t s m) = t"
| "topic_of _ = Undefined"

fun subject_of :: "call \<Rightarrow> jsval" where
  "subject_of (SnsPublish t s m) = s"
| "subject_of _ = Undefined"

fun is_start_job :: "call \<Rightarrow> bool" where
  "is_start_job (StartTranscriptionJob u f n) = True"
| "is_start_job _ = False"

fun is_signed_url :: "call \<Rightarrow> bool" where
  "is_signed_url (GetSignedUrl operation b k e) = True"
| "is_signed_url _ = False"

text \<open>A state with other unhandled rejections.\<close>

abbreviation (input) unhandled :: "js_error list \<Rightarrow> run \<Rightarrow> run" where
  "unhandled u st \<equiv> st\<lparr>unhandled_rejections := u\<rparr>"

section \<open>The shape of an object key\<close>

text \<open>
  An underscore-delimited segment after a path separator: \<open>segment_at s\<close> when \<open>s\<close>
  starts with \<open>/\<close>, one or more characters of \<open>[a-zA-Z0-9-]\<close> and \<open>_\<close>, and
  \<open>has_segment s\<close> when some part of \<open>s\<close> does.
\<close>

definition segment_at :: "string \<Rightarrow> bool" where
  "segment_at s =
     (case s of
        [] \<Rightarrow> False
      | c # cs \<Rightarrow>
          c = CHR ''/'' \<and> takeWhile contact_id_char cs \<noteq> []
          \<and> (case dropWhile contact_id_char cs of [] \<Rightarrow> False | d # ds \<Rightarrow> d = CHR ''_''))"

fun has_segment :: "string \<Rightarrow> bool" where
  "has_segment [] = False"
| "has_segment (c # cs) = (segment_at (c # cs) \<or> has_segment cs)"

text \<open>The part of the object key pattern after its capture group, \<open>_.*\<close>.\<close>

definition key_rest :: regex where
  "key_rest = Seq (Cls (lit CHR ''_'')) (Star dot)"

section \<open>Example worlds\<close>

text \<open>
  A world in which every collaborator answers and the job is completed at the first
  status check, and one in which the job stays in progress. The object keys of the
  examples hold no \<open>%\<close>, so \<open>decodeURIComponent\<close> gives them back.
\<close>

definition example_job :: "string \<Rightarrow> jsval \<Rightarrow> string option \<Rightarrow> job" where
  "example_job status reason uri =
     \<lparr>TranscriptionJobName = ''abc-123_20180619T07_02_UTC_1000'', TranscriptionJobStatus = status,
      FailureReason = reason, TranscriptFileUri = uri\<rparr>"

definition example_world :: world where
  "example_world =
     \<lparr>decodeURIComponent = Inr,
      now_millis = (\<lambda>_. 1000),
      format_date = (\<lambda>_ _. ''Tue Jun 19, 3:03 PM GMT+8''),
      sns_publish_reply = (\<lambda>_. Inr Obj),
      filter_log_events_reply =
        (\<lambda>_. Inr [Inr (''voicemail'', Str ''true''),
                  Inr (''callingNumber'', Str ''+61412345678''),
                  Inr (''purpose'', Str ''billing'')]),
      start_job_reply = (\<lambda>_. Inr (example_job ''IN_PROGRESS'' Undefined None)),
      get_job_reply = (\<lambda>_. Inr (example_job ''COMPLETED'' Undefined (Some ''https://transcript''))),
      http_get_reply = (\<lambda>_. Inr [Str ''hello'']),
      signed_url_reply = (\<lambda>_. Inr (Str ''https://signed/url''))\<rparr>"

definition pending_world :: world where
  "pending_world =
     example_world\<lparr>get_job_reply := (\<lambda>_. Inr (example_job ''IN_PROGRESS'' Undefined None))\<rparr>"

definition example_config :: config where
  "example_config =
     \<lparr>CONNECT_LOG_GROUP = Str ''/aws/connect/voicemail'',
      NOTIFICATION_TOPIC = Str ''arn:aws:sns:voicemail-notifications'',
      AGENT_LOGIN_TOPIC = Str ''arn:aws:sns:agent-login'',
      NOTIFICATION_TIMEZONE = Str ''Australia/Perth'',
      LINK_EXPIRY_IN_DAYS = Some 7\<rparr>"

definition example_record :: s3_record where
  "example_record =
     \<lparr>bucket_name = ''b'', eventTime = ''2018-06-19T07:02:00Z'',
      object_key = ''calls/abc-123_20180619T07:02_UTC.wav''\<rparr>"

text \<open>The log search finds no entry for the call.\<close>

definition no_attributes_world :: world where
  "no_attributes_world = example_world\<lparr>filter_log_events_reply := (\<lambda>_. Inr [])\<rparr>"

text \<open>The job is in progress at the first status check and has failed at the second.\<close>

definition failed_world :: world where
  "failed_world =
     example_world\<lparr>get_job_reply :=
       (\<lambda>h. if length (filter (\<lambda>c. c = GetTranscriptionJob ''abc-123_20180619T07_02_UTC_1000'') h) \<le> 1
            then Inr (example_job ''IN_PROGRESS'' Undefined None)
            else Inr (example_job ''FAILED'' (Str ''Unsupported media format'') None))\<rparr>"

text \<open>SNS rejects the alert, and only the alert.\<close>

definition alert_down_world :: world where
  "alert_down_world =
     failed_world\<lparr>sns_publish_reply :=
       (\<lambda>h. if h \<noteq> [] \<and> is_alert (last h) then Inl (JsError ''ServiceUnavailable'' ''SNS is down'')
            else Inr Obj)\<rparr>"

text \<open>SNS rejects the first publish of the invocation, the login event, and no other.\<close>

definition login_down_world :: world where
  "login_down_world =
     example_world\<lparr>sns_publish_reply :=
       (\<lambda>h. if length h = 1 then Inl (JsError ''NotFound'' ''Topic does not exist'')
            else Inr Obj)\<rparr>"

section \<open>Properties\<close>

subsection \<open>The calls of a run\<close>

lemma calls_issue [simp]: "calls (issue c st) = calls st @ [c]"
  by (simp add: issue_def)

lemma calls_wait [simp]: "calls (wait t st) = calls st @ [Wait t]"
  by (simp add: wait_def)

subsection \<open>Character classes\<close>

text \<open>The ranges of the character classes, character by character.\<close>

lemma in_range_digits: "in_range CHR ''0'' CHR ''9'' c \<longleftrightarrow> c \<in> set ''0123456789''"
proof -
  have s: "''0123456789'' = map char_of [48..<58::nat]" by code_simp
  have "c \<in> set (map char_of [48..<58::nat]) \<longleftrightarrow> 48 \<le> (of_char c :: nat) \<and> (of_char c :: nat) < 58"
  proof
    assume "c \<in> set (map char_of [48..<58::nat])"
    then obtain n :: nat where n: "c = char_of n" "48 \<le> n" "n < 58" by auto
    then have "(of_char c :: nat) = n" by (simp add: of_char_of)
    with n show "48 \<le> (of_char c :: nat) \<and> (of_char c :: nat) < 58" by simp
  next
    assume a: "48 \<le> (of_char c :: nat) \<and> (of_char c :: nat) < 58"
    have "c = char_of (of_char c :: nat)" by simp
    with a show "c \<in> set (map char_of [48..<58::nat])" by (metis (no_types, lifting) atLeastLessThan_iff imageI set_map set_upt)
  qed
  then show ?thesis unfolding s by (auto simp: in_range_def)
qed

lemma in_range_lower: "in_range CHR ''a'' CHR ''z'' c \<longleftrightarrow> c \<in> set ''abcdefghijklmnopqrstuvwxyz''"
proof -
  have s: "''abcdefghijklmnopqrstuvwxyz'' = map char_of [97..<123::nat]" by code_simp
  have "c \<in> set (map char_of [97..<123::nat]) \<longleftrightarrow> 97 \<le> (of_char c :: nat) \<and> (of_char c :: nat) < 123"
  proof
    assume "c \<in> set (map char_of [97..<123::nat])"
    then obtain n :: nat where n: "c = char_of n" "97 \<le> n" "n < 123" by auto
    then have "(of_char c :: nat) = n" by (simp add: of_char_of)
    with n show "97 \<le> (of_char c :: nat) \<and> (of_char c :: nat) < 123" by simp
  next
    assume a: "97 \<le> (of_char c :: nat) \<and> (of_char c :: nat) < 123"
    have "c = char_of (of_char c :: nat)" by simp
    with a show "c \<in> set (map char_of [97..<123::nat])" by (metis (no_types, lifting) atLeastLessThan_iff imageI set_map set_upt)
  qed
  then show ?thesis unfolding s by (auto simp: in_range_def)
qed

lemma in_range_upper: "in_range CHR ''A'' CHR ''Z'' c \<longleftrightarrow> c \<in> set ''ABCDEFGHIJKLMNOPQRSTUVWXYZ''"
proof -
  have s: "''ABCDEFGHIJKLMNOPQRSTUVWXYZ'' = map char_of [65..<91::nat]" by code_simp
  have "c \<in> set (map char_of [65..<91::nat]) \<longleftrightarrow> 65 \<le> (of_char c :: nat) \<and> (of_char c :: nat) < 91"
  proof
    assume "c \<in> set (map char_of [65..<91::nat])"
    then obtain n :: nat where n: "c = char_of n" "65 \<le> n" "n < 91" by auto
    then have "(of_char c :: nat) = n" by (simp add: of_char_of)
    with n show "65 \<le> (of_char c :: nat) \<and> (of_char c :: nat) < 91" by simp
  next
    assume a: "65 \<le> (of_char c :: nat) \<and> (of_char c :: nat) < 91"
    have "c = char_of (of_char c :: nat)" by simp
    with a show "c \<in> set (map char_of [65..<91::nat])" by (metis (no_types, lifting) atLeastLessThan_iff imageI set_map set_upt)
  qed
  then show ?thesis unfolding s by (auto simp: in_range_def)
qed

lemma job_name_char_iff:
  "job_name_char c \<longleftrightarrow>
     c \<in> set ''0123456789abcdefghijklmnopqrstuvwxyzABCDEFGHIJKLMNOPQRSTUVWXYZ._-''"
proof -
  have "set ''0123456789abcdefghijklmnopqrstuvwxyzABCDEFGHIJKLMNOPQRSTUVWXYZ._-''
          = set ''0123456789'' \<union> set ''abcdefghijklmnopqrstuvwxyz''
            \<union> set ''ABCDEFGHIJKLMNOPQRSTUVWXYZ'' \<union> {CHR ''.'', CHR ''_'', CHR ''-''}"
    by (simp only: set_append [symmetric] append.simps list.set(2) [symmetric] ) auto
  then show ?thesis
    unfolding job_name_char_def in_range_digits in_range_lower in_range_upper by blast
qed

lemma contact_id_char_iff:
  "contact_id_char c \<longleftrightarrow>
     c \<in> set ''abcdefghijklmnopqrstuvwxyzABCDEFGHIJKLMNOPQRSTUVWXYZ0123456789-''"
proof -
  have "set ''abcdefghijklmnopqrstuvwxyzABCDEFGHIJKLMNOPQRSTUVWXYZ0123456789-''
          = set ''abcdefghijklmnopqrstuvwxyz'' \<union> set ''ABCDEFGHIJKLMNOPQRSTUVWXYZ''
            \<union> set ''0123456789'' \<union> {CHR ''-''}"
    by (simp only: set_append [symmetric] append.simps list.set(2) [symmetric] ) auto
  then show ?thesis
    unfolding contact_id_char_def in_range_digits in_range_lower in_range_upper by blast
qed

lemma digit_iff: "digit c \<longleftrightarrow> c \<in> set ''0123456789''"
  unfolding digit_def by (rule in_range_digits)

subsection \<open>Job names\<close>

lemma normalised_map: "normalisedJobName s = map (\<lambda>c. if job_name_char c then c else CHR ''_'') s"
  by (induction s) (simp_all add: normalisedJobName_def replace_all_def)

lemma job_name_char_underscore: "job_name_char CHR ''_''"
  by (simp add: job_name_char_def)

text \<open>
  C9: \<open>_normalisedJobName\<close> maps every character outside \<open>[0-9A-Za-z._-]\<close> to \<open>_\<close>
  and leaves the characters of the class as they are, and applying it twice is
  applying it once.
\<close>

theorem normalisedJobName_sanitizes_idempotent:
  "normalisedJobName s = map (\<lambda>c. if job_name_char c then c else CHR ''_'') s
   \<and> normalisedJobName (normalisedJobName s) = normalisedJobName s"
  by (simp add: normalised_map job_name_char_underscore)

subsection \<open>\<open>awaitJob\<close>\<close>

lemma poll_pending:
  assumes "\<And>h. \<exists>j. get_job_reply w h = Inr j \<and> TranscriptionJobStatus j = TRANSCRIBE_PENDING"
  shows "\<exists>job' st'. poll w jobName t n job st = (Inr job', st')
           \<and> (if n = 0 then job' = job
               else \<exists>j. job' = Some j \<and> TranscriptionJobStatus j = TRANSCRIBE_PENDING)
           \<and> calls st' = calls st @ concat (replicate n [GetTranscriptionJob jobName, Wait t])
           \<and> console_errors st' = console_errors st"
proof (induction n arbitrary: job st)
  case 0
  show ?case by simp
next
  case (Suc n)
  let ?st1 = "issue (GetTranscriptionJob jobName) st"
  obtain j where j: "get_job_reply w (calls ?st1) = Inr j"
      "TranscriptionJobStatus j = TRANSCRIBE_PENDING"
    using assms by blast
  obtain job' st' where IH: "poll w jobName t n (Some j) (wait t ?st1) = (Inr job', st')"
     "if n = 0 then job' = Some j else \<exists>j. job' = Some j \<and> TranscriptionJobStatus j = TRANSCRIBE_PENDING"
     "calls st' = calls (wait t ?st1) @ concat (replicate n [GetTranscriptionJob jobName, Wait t])"
     "console_errors st' = console_errors (wait t ?st1)"
    using Suc.IH by blast
  have "poll w jobName t (Suc n) job st = (Inr job', st')"
    using j IH(1) by (simp add: Let_def)
  moreover have "\<exists>j. job' = Some j \<and> TranscriptionJobStatus j = TRANSCRIBE_PENDING"
    using IH(2) j(2) by (cases "n = 0") auto
  ultimately show ?case using IH(3,4) by (simp add: wait_def issue_def)
qed

lemma issued_append: "calls st' = calls st @ cs \<Longrightarrow> issued st st' = cs"
  by (simp add: issued_def)

lemma waits_append [simp]: "waits (xs @ ys) = waits xs @ waits ys"
  by (simp add: waits_def)

lemma waits_Cons_Wait [simp]: "waits (Wait t # cs) = t # waits cs"
  by (simp add: waits_def)

lemma waits_Nil [simp]: "waits [] = []"
  by (simp add: waits_def)

lemma waits_Cons_Get [simp]: "waits (GetTranscriptionJob n # cs) = waits cs"
  by (simp add: waits_def)

lemma waits_Cons_Http [simp]: "waits (HttpGet n # cs) = waits cs"
  by (simp add: waits_def)

lemma poll_calls:
  "\<exists>k cs. k \<le> n \<and> calls (snd (poll w jobName t n job st)) = calls st @ cs \<and> waits cs = replicate k t
     \<and> (0 < n \<longrightarrow> cs \<noteq> [] \<and> hd cs = GetTranscriptionJob jobName)"
proof (induction n arbitrary: job st)
  case 0
  show ?case by simp
next
  case (Suc n)
  let ?st1 = "issue (GetTranscriptionJob jobName) st"
  show ?case
  proof (cases "get_job_reply w (calls ?st1)")
    case (Inl e)
    then have "calls (snd (poll w jobName t (Suc n) job st)) = calls st @ [GetTranscriptionJob jobName]"
      by (simp add: Let_def)
    moreover have "waits [GetTranscriptionJob jobName] = replicate 0 t" by simp
    ultimately show ?thesis by (metis le0 list.sel(1) not_Cons_self2)
  next
    case (Inr j)
    show ?thesis
    proof (cases "TRANSCRIBE_PENDING \<noteq> TranscriptionJobStatus j")
      case True
      with Inr have "calls (snd (poll w jobName t (Suc n) job st)) = calls st @ [GetTranscriptionJob jobName]"
        by (simp add: Let_def)
      moreover have "waits [GetTranscriptionJob jobName] = replicate 0 t" by simp
      ultimately show ?thesis by (metis le0 list.sel(1) not_Cons_self2)
    next
      case False
      obtain k cs where IH: "k \<le> n"
        "calls (snd (poll w jobName t n (Some j) (wait t ?st1))) = calls (wait t ?st1) @ cs"
        "waits cs = replicate k t"
        using Suc.IH by blast
      from False Inr have "poll w jobName t (Suc n) job st = poll w jobName t n (Some j) (wait t ?st1)"
        by (simp add: Let_def)
      with IH(2) have "calls (snd (poll w jobName t (Suc n) job st))
          = calls st @ (GetTranscriptionJob jobName # Wait t # cs)"
        by simp
      moreover have "waits (GetTranscriptionJob jobName # Wait t # cs) = replicate (Suc k) t"
        using IH(3) by simp
      moreover have "Suc k \<le> Suc n" using IH(1) by simp
      ultimately show ?thesis by (metis list.sel(1) list.distinct(1))
    qed
  qed
qed

lemma after_poll_calls:
  "\<exists>cs. calls (snd (after_poll w job st)) = calls st @ cs \<and> waits cs = []"
  by (auto simp: after_poll_def Let_def split: option.splits sum.splits list.splits)

lemma awaitJob_calls:
  "\<exists>k cs. k \<le> 6 \<and> calls (snd (awaitJob w jobName waitSeconds st))
        = calls st @ Wait INITIAL_WAIT_MS # GetTranscriptionJob jobName # cs
     \<and> waits cs = replicate k ((waitSeconds * 1000 - INITIAL_WAIT_MS) / 6)"
proof -
  let ?t = "(waitSeconds * 1000 - INITIAL_WAIT_MS) / 6"
  let ?st0 = "wait INITIAL_WAIT_MS st"
  obtain k cs where p: "k \<le> 6" "calls (snd (poll w jobName ?t 6 None ?st0)) = calls ?st0 @ cs"
     "waits cs = replicate k ?t" "cs \<noteq> []" "hd cs = GetTranscriptionJob jobName"
    using poll_calls [of 6 w jobName ?t None ?st0] by auto
  obtain cs' where cs': "cs = GetTranscriptionJob jobName # cs'"
    using p(4,5) by (cases cs) auto
  obtain r st' where r: "poll w jobName ?t 6 None ?st0 = (r, st')"
    by (cases "poll w jobName ?t 6 None ?st0")
  show ?thesis
  proof (cases r)
    case (Inl e)
    with r have "awaitJob w jobName waitSeconds st = (Inl e, st')"
      by (simp add: awaitJob_def Let_def)
    with r p cs' show ?thesis by (intro exI[of _ k] exI[of _ cs']) simp
  next
    case (Inr job')
    with r have a: "awaitJob w jobName waitSeconds st = after_poll w job' st'"
      by (simp add: awaitJob_def Let_def)
    obtain ds where ds: "calls (snd (after_poll w job' st')) = calls st' @ ds" "waits ds = []"
      using after_poll_calls by blast
    with r p cs' a show ?thesis by (intro exI[of _ k] exI[of _ "cs' @ ds"]) simp
  qed
qed

lemma status_distinct:
  "TRANSCRIBE_PENDING \<noteq> TRANSCRIBE_COMPLETED" "TRANSCRIBE_PENDING \<noteq> TRANSCRIBE_FAILED"
  "TRANSCRIBE_COMPLETED \<noteq> TRANSCRIBE_FAILED"
  by (simp_all add: TRANSCRIBE_PENDING_def TRANSCRIBE_COMPLETED_def TRANSCRIBE_FAILED_def)

lemma awaitJob_pending:
  assumes "\<And>h. \<exists>j. get_job_reply w h = Inr j \<and> TranscriptionJobStatus j = TRANSCRIBE_PENDING"
  shows "fst (awaitJob w jobName waitSeconds st) = Inr Undefined
       \<and> calls (snd (awaitJob w jobName waitSeconds st))
           = calls st @ Wait INITIAL_WAIT_MS
               # concat (replicate 6 [GetTranscriptionJob jobName,
                                      Wait ((waitSeconds * 1000 - INITIAL_WAIT_MS) / 6)])"
proof -
  let ?t = "(waitSeconds * 1000 - INITIAL_WAIT_MS) / 6"
  let ?st0 = "wait INITIAL_WAIT_MS st"
  obtain job' st' where p: "poll w jobName ?t 6 None ?st0 = (Inr job', st')"
      "\<exists>j. job' = Some j \<and> TranscriptionJobStatus j = TRANSCRIBE_PENDING"
      "calls st' = calls ?st0 @ concat (replicate 6 [GetTranscriptionJob jobName, Wait ?t])"
    using poll_pending [OF assms, of jobName ?t 6 None ?st0] by auto
  from p(2) obtain j where j: "job' = Some j" "TranscriptionJobStatus j = TRANSCRIBE_PENDING"
    by blast
  have "after_poll w job' st' = (Inr Undefined, st')"
    using j status_distinct by (simp add: after_poll_def)
  with p(1) have "awaitJob w jobName waitSeconds st = (Inr Undefined, st')"
    by (simp add: awaitJob_def Let_def)
  with p(3) show ?thesis by simp
qed

text \<open>
  C3: with a budget of 240 seconds, \<open>awaitJob\<close> waits 60000 ms first and then, after
  each status check that finds the job in progress, the one value
  \<open>(240000 - 60000) / 6\<close> ms, whatever the number of checks it comes to; when every
  status check finds the job in progress, it waits six times, and all its waits
  together are at most the budget of 240000 ms.
\<close>

theorem awaitJob_wait_interval_and_budget:
  "(\<exists>k\<le>6. waits (issued st (snd (awaitJob w jobName 240 st)))
             = 60000 # replicate k ((240000 - 60000) / 6))
   \<and> ((\<forall>h. \<exists>j. get_job_reply w h = Inr j \<and> TranscriptionJobStatus j = TRANSCRIBE_PENDING) \<longrightarrow>
        waits (issued st (snd (awaitJob w jobName 240 st)))
          = 60000 # replicate 6 ((240000 - 60000) / 6)
        \<and> sum_list (waits (issued st (snd (awaitJob w jobName 240 st)))) \<le> 240 * 1000)"
proof (intro conjI impI)
  obtain k cs where c: "k \<le> 6"
    "calls (snd (awaitJob w jobName 240 st))
       = calls st @ Wait INITIAL_WAIT_MS # GetTranscriptionJob jobName # cs"
    "waits cs = replicate k ((240 * 1000 - INITIAL_WAIT_MS) / 6)"
    using awaitJob_calls by blast
  have "waits (issued st (snd (awaitJob w jobName 240 st)))
          = 60000 # replicate k ((240000 - 60000) / 6)"
    using issued_append [OF c(2)] c(3) by (simp add: INITIAL_WAIT_MS_def)
  with c(1) show "\<exists>k\<le>6. waits (issued st (snd (awaitJob w jobName 240 st)))
             = 60000 # replicate k ((240000 - 60000) / 6)" by blast
next
  assume "\<forall>h. \<exists>j. get_job_reply w h = Inr j \<and> TranscriptionJobStatus j = TRANSCRIBE_PENDING"
  then have "calls (snd (awaitJob w jobName 240 st))
           = calls st @ Wait INITIAL_WAIT_MS
               # concat (replicate 6 [GetTranscriptionJob jobName,
                                      Wait ((240 * 1000 - INITIAL_WAIT_MS) / 6)])"
    using awaitJob_pending [of w jobName 240 st] by blast
  from issued_append [OF this]
  have w: "waits (issued st (snd (awaitJob w jobName 240 st)))
          = 60000 # replicate 6 ((240000 - 60000) / 6)"
    by (simp add: INITIAL_WAIT_MS_def eval_nat_numeral)
  then show "waits (issued st (snd (awaitJob w jobName 240 st)))
          = 60000 # replicate 6 ((240000 - 60000) / 6)" .
  from w show "sum_list (waits (issued st (snd (awaitJob w jobName 240 st)))) \<le> 240 * 1000"
    by (simp add: eval_nat_numeral)
qed

lemma pending_world_pending:
  "\<forall>h. \<exists>j. get_job_reply pending_world h = Inr j \<and> TranscriptionJobStatus j = TRANSCRIBE_PENDING"
  by (simp add: pending_world_def example_world_def example_job_def TRANSCRIBE_PENDING_def)

theorem awaitJob_wait_interval_and_budget_witness:
  "(\<forall>h. \<exists>j. get_job_reply pending_world h = Inr j \<and> TranscriptionJobStatus j = TRANSCRIBE_PENDING)
   \<and> waits (issued start_run (snd (awaitJob pending_world ''abc-123_20180619T07_02_UTC_1000'' 240 start_run)))
       = [60000, 30000, 30000, 30000, 30000, 30000, 30000]
   \<and> sum_list (waits (issued start_run (snd (awaitJob pending_world ''abc-123_20180619T07_02_UTC_1000'' 240 start_run))))
       \<le> 240000"
  using awaitJob_wait_interval_and_budget [of start_run pending_world "''abc-123_20180619T07_02_UTC_1000''"]
    pending_world_pending
  by (simp add: eval_nat_numeral)

text \<open>
  C4: when every status check finds the job in progress, \<open>awaitJob\<close> returns
  \<open>undefined\<close> and throws nothing, for every budget.
\<close>

theorem awaitJob_exhausted_returns_undefined:
  assumes "\<And>h. \<exists>j. get_job_reply w h = Inr j \<and> TranscriptionJobStatus j = TRANSCRIBE_PENDING"
  shows "fst (awaitJob w jobName waitSeconds st) = Inr Undefined"
  using awaitJob_pending [OF assms] by blast

theorem awaitJob_exhausted_returns_undefined_witness:
  "(\<forall>h. \<exists>j. get_job_reply pending_world h = Inr j \<and> TranscriptionJobStatus j = TRANSCRIBE_PENDING)
   \<and> fst (awaitJob pending_world ''abc-123_20180619T07_02_UTC_1000'' 240 start_run) = Inr Undefined"
  using awaitJob_exhausted_returns_undefined [of pending_world "''abc-123_20180619T07_02_UTC_1000''" 240 start_run]
    pending_world_pending
  by simp

lemma poll_Suc_not_null: "fst (poll w jobName t (Suc n) job st) \<noteq> Inr None"
proof (induction n arbitrary: job st)
  case 0
  show ?case by (simp add: Let_def split: sum.splits)
next
  case (Suc n)
  have "fst (poll w jobName t (Suc n) j' st') \<noteq> Inr None" for j' st'
    by (rule Suc.IH)
  then show ?case
    by (subst poll.simps) (simp add: Let_def split: sum.splits del: poll.simps)
qed

lemma poll_six_not_null: "fst (poll w jobName t 6 None st) \<noteq> Inr None"
proof -
  have "(6::nat) = Suc 5" by simp
  then show ?thesis using poll_Suc_not_null [of w jobName t 5 None st] by metis
qed

text \<open>
  C10: every run of \<open>awaitJob\<close> issues a status check, and the statements after the
  loop only ever run with \<open>job\<close> set: either the loop has thrown (a status check was
  rejected), or it has left a job and \<open>awaitJob\<close> continues with that job.
\<close>

theorem awaitJob_checks_before_inspecting:
  "GetTranscriptionJob jobName \<in> set (issued st (snd (awaitJob w jobName waitSeconds st)))
   \<and> ((\<exists>e st'. poll w jobName ((waitSeconds * 1000 - INITIAL_WAIT_MS) / 6) 6 None
                   (wait INITIAL_WAIT_MS st) = (Inl e, st')
               \<and> awaitJob w jobName waitSeconds st = (Inl e, st'))
      \<or> (\<exists>j st'. poll w jobName ((waitSeconds * 1000 - INITIAL_WAIT_MS) / 6) 6 None
                   (wait INITIAL_WAIT_MS st) = (Inr (Some j), st')
               \<and> awaitJob w jobName waitSeconds st = after_poll w (Some j) st'))"
proof
  obtain k cs where c:
    "calls (snd (awaitJob w jobName waitSeconds st))
       = calls st @ Wait INITIAL_WAIT_MS # GetTranscriptionJob jobName # cs"
    using awaitJob_calls by blast
  from issued_append [OF this]
  show "GetTranscriptionJob jobName \<in> set (issued st (snd (awaitJob w jobName waitSeconds st)))"
    by simp
next
  let ?p = "poll w jobName ((waitSeconds * 1000 - INITIAL_WAIT_MS) / 6) 6 None (wait INITIAL_WAIT_MS st)"
  obtain r st' where r: "?p = (r, st')" by (cases ?p)
  have "fst ?p \<noteq> Inr None"
    by (rule poll_six_not_null)
  with r have "r \<noteq> Inr None" by simp
  then consider e where "r = Inl e" | j where "r = Inr (Some j)"
    by (cases r) auto
  then show "(\<exists>e st'. ?p = (Inl e, st') \<and> awaitJob w jobName waitSeconds st = (Inl e, st'))
      \<or> (\<exists>j st'. ?p = (Inr (Some j), st') \<and> awaitJob w jobName waitSeconds st = after_poll w (Some j) st')"
    using r by cases (simp_all add: awaitJob_def Let_def)
qed

subsection \<open>\<open>process\<close>\<close>

lemma login_params_nonempty: "login_params \<noteq> []"
  by (simp add: login_params_def)

lemma alert_message_nonempty: "alert_message err \<noteq> []"
  by (simp add: alert_message_def)

lemma signal_agent_calls:
  "calls (signal_agent w cfg st)
     = calls st @ [SnsPublish (AGENT_LOGIN_TOPIC cfg) Undefined login_params]"
  by (simp add: signal_agent_def sendLoginEvent_def publish_def login_params_nonempty Let_def
           split: sum.splits)

lemma signal_agent_console:
  "console_errors (signal_agent w cfg st) = console_errors st"
  by (simp add: signal_agent_def sendLoginEvent_def publish_def login_params_nonempty Let_def
        issue_def split: sum.splits)

lemma enrich_Inr_calls:
  assumes "enrich w cfg eventRecord st = (Inr voicemail, st')"
  shows "\<exists>pattern startTime.
           calls st' = calls st @ [FilterLogEvents (CONNECT_LOG_GROUP cfg) pattern startTime]"
  using assms
  by (auto simp: enrich_def addCallAttributes_def getContactFlowLogs_def filterLogEvents_def
        Let_def split: sum.splits prod.splits)

text \<open>
  C2: when the enriched record has a falsy \<open>voicemail\<close> property, \<open>process\<close>
  returns \<open>{success: true}\<close> in the state the enrichment left: the calls of the
  invocation are the login event and the log search, no transcription job is started,
  no signed URL is asked for, and the login event is the only publish.
\<close>

theorem process_skips_without_voicemail_flag:
  assumes "enrich w cfg eventRecord (signal_agent w cfg start_run) = (Inr voicemail, st)"
      and "\<not> truthy (get_prop voicemail ''voicemail'')"
  shows "process w cfg eventRecord = (Inr Success, st)
       \<and> (\<exists>pattern startTime.
             calls st = [SnsPublish (AGENT_LOGIN_TOPIC cfg) Undefined login_params,
                         FilterLogEvents (CONNECT_LOG_GROUP cfg) pattern startTime])
       \<and> filter is_start_job (calls st) = []
       \<and> filter is_signed_url (calls st) = []
       \<and> filter is_publish (calls st) = [SnsPublish (AGENT_LOGIN_TOPIC cfg) Undefined login_params]"
proof -
  have p: "pipeline w cfg eventRecord (signal_agent w cfg start_run) = (Inr Success, st)"
    using assms by (simp add: pipeline_def)
  then have r: "process w cfg eventRecord = (Inr Success, st)"
    by (simp add: process_def)
  obtain pattern startTime where
    c: "calls st = [SnsPublish (AGENT_LOGIN_TOPIC cfg) Undefined login_params,
                   FilterLogEvents (CONNECT_LOG_GROUP cfg) pattern startTime]"
    using enrich_Inr_calls [OF assms(1)] by (auto simp: signal_agent_calls start_run_def)
  from r c show ?thesis by simp
qed

lemma no_attributes_enriched:
  "case enrich no_attributes_world example_config example_record
          (signal_agent no_attributes_world example_config start_run) of
     (Inr v, st) \<Rightarrow> \<not> truthy (get_prop v ''voicemail'')
   | (Inl e, st) \<Rightarrow> False"
  by code_simp

theorem process_skips_without_voicemail_flag_witness:
  "(\<exists>v st. enrich no_attributes_world example_config example_record
              (signal_agent no_attributes_world example_config start_run) = (Inr v, st)
           \<and> \<not> truthy (get_prop v ''voicemail''))
   \<and> fst (process no_attributes_world example_config example_record) = Inr Success
   \<and> filter is_start_job (calls (snd (process no_attributes_world example_config example_record))) = []
   \<and> filter is_signed_url (calls (snd (process no_attributes_world example_config example_record))) = []
   \<and> filter is_publish (calls (snd (process no_attributes_world example_config example_record)))
       = [SnsPublish (Str ''arn:aws:sns:agent-login'') Undefined login_params]"
proof -
  obtain v st where
    e: "enrich no_attributes_world example_config example_record
          (signal_agent no_attributes_world example_config start_run) = (Inr v, st)"
    and f: "\<not> truthy (get_prop v ''voicemail'')"
    using no_attributes_enriched by (auto split: prod.splits sum.splits)
  from process_skips_without_voicemail_flag [OF e f] e f
  show ?thesis by (auto simp: example_config_def)
qed


lemma on_failure_result:
  "on_failure w cfg err st =
     (case sns_publish_reply w (calls st @ [SnsPublish (NOTIFICATION_TOPIC cfg)
              (Str ''Voicemail processing failure'') (alert_message err)]) of
        Inl e \<Rightarrow> Inl e
      | Inr r \<Rightarrow> Inl err,
      \<lparr>calls = calls st @ [SnsPublish (NOTIFICATION_TOPIC cfg)
              (Str ''Voicemail processing failure'') (alert_message err)],
       console_errors = console_errors st @ [err],
       unhandled_rejections = unhandled_rejections st\<rparr>)"
  by (simp add: on_failure_def publish_def alert_message_nonempty Let_def issue_def
        split: sum.splits)

text \<open>
  C7, as the code has it: when a stage has thrown \<open>err\<close>, the error goes to the
  console and the alert is published; \<open>process\<close> then throws the error of the alert
  publish when that publish is rejected, and \<open>err\<close> when it is not.
\<close>

theorem process_surfaces_alert_failure:
  assumes "pipeline w cfg eventRecord (signal_agent w cfg start_run) = (Inl err, st)"
  shows "fst (process w cfg eventRecord)
           = (case sns_publish_reply w (calls st @ [SnsPublish (NOTIFICATION_TOPIC cfg)
                      (Str ''Voicemail processing failure'') (alert_message err)]) of
                Inl e \<Rightarrow> Inl e
              | Inr r \<Rightarrow> Inl err)
       \<and> console_errors (snd (process w cfg eventRecord)) = console_errors st @ [err]"
  using assms by (simp add: process_def on_failure_result)

lemma alert_down_pipeline:
  "case pipeline alert_down_world example_config example_record
          (signal_agent alert_down_world example_config start_run) of
     (Inl err, st) \<Rightarrow>
        err = Error ''Transcription failure: Unsupported media format''
        \<and> sns_publish_reply alert_down_world
             (calls st @ [SnsPublish (NOTIFICATION_TOPIC example_config)
                (Str ''Voicemail processing failure'') (alert_message err)])
            = Inl (JsError ''ServiceUnavailable'' ''SNS is down'')
   | (Inr r, st) \<Rightarrow> False"
  by code_simp

theorem process_surfaces_alert_failure_witness:
  "(\<exists>st. pipeline alert_down_world example_config example_record
            (signal_agent alert_down_world example_config start_run)
          = (Inl (Error ''Transcription failure: Unsupported media format''), st))
   \<and> fst (process alert_down_world example_config example_record)
       = Inl (JsError ''ServiceUnavailable'' ''SNS is down'')"
proof -
  obtain err st where
    p: "pipeline alert_down_world example_config example_record
          (signal_agent alert_down_world example_config start_run) = (Inl err, st)"
    and e: "err = Error ''Transcription failure: Unsupported media format''"
    and r: "sns_publish_reply alert_down_world
             (calls st @ [SnsPublish (NOTIFICATION_TOPIC example_config)
                (Str ''Voicemail processing failure'') (alert_message err)])
            = Inl (JsError ''ServiceUnavailable'' ''SNS is down'')"
    using alert_down_pipeline by (auto split: prod.splits sum.splits)
  from process_surfaces_alert_failure [OF p] r p e show ?thesis by auto
qed

text \<open>
  C7 as stated fails: the job has failed, SNS rejects the alert, and the error
  \<open>process\<close> throws is the one of SNS, not the transcription failure.
\<close>

theorem alert_failure_masks_original_error:
  "fst (pipeline alert_down_world example_config example_record
          (signal_agent alert_down_world example_config start_run))
     = Inl (Error ''Transcription failure: Unsupported media format'')
   \<and> fst (process alert_down_world example_config example_record)
       = Inl (JsError ''ServiceUnavailable'' ''SNS is down'')
   \<and> fst (process alert_down_world example_config example_record)
       \<noteq> Inl (Error ''Transcription failure: Unsupported media format'')"
  by code_simp

text \<open>
  C8: SNS rejects the login event. The rejection reaches no \<open>catch\<close> clause: nothing
  is written to the console, and the rejection is left unhandled. The handler itself
  succeeds, with the calls of the run in which the login event is accepted.
\<close>

theorem login_rejection_not_caught:
  "sns_publish_reply login_down_world
      [SnsPublish (AGENT_LOGIN_TOPIC example_config) Undefined login_params]
     = Inl (JsError ''NotFound'' ''Topic does not exist'')
   \<and> console_errors (snd (process login_down_world example_config example_record)) = []
   \<and> unhandled_rejections (snd (process login_down_world example_config example_record))
       = [JsError ''NotFound'' ''Topic does not exist'']
   \<and> fst (process login_down_world example_config example_record) = Inr Success
   \<and> calls (snd (process login_down_world example_config example_record))
       = calls (snd (process example_world example_config example_record))"
  by code_simp

lemma signal_agent_unhandled:
  "unhandled_rejections (signal_agent w cfg st)
     = unhandled_rejections st
       @ (case sns_publish_reply w
                 (calls st @ [SnsPublish (AGENT_LOGIN_TOPIC cfg) Undefined login_params]) of
            Inl e \<Rightarrow> [e] | Inr r \<Rightarrow> [])"
  by (simp add: signal_agent_def sendLoginEvent_def publish_def login_params_nonempty Let_def
        issue_def split: sum.splits)


lemma filter_alert_publish: "filter is_alert cs = filter is_alert (filter is_publish cs)"
proof (induction cs)
  case Nil
  show ?case by simp
next
  case (Cons c cs)
  then show ?case by (cases c) simp_all
qed

lemma poll_publishes:
  "filter is_publish (calls (snd (poll w jobName t n job st))) = filter is_publish (calls st)"
proof (induction n arbitrary: job st)
  case 0
  show ?case by simp
next
  case (Suc n)
  have "filter is_publish (calls (snd (poll w jobName t n j' st'))) = filter is_publish (calls st')"
    for j' st' by (rule Suc.IH)
  then show ?case
    by (subst poll.simps) (simp add: Let_def split: sum.splits del: poll.simps)
qed

lemma startJob_Inr_calls:
  assumes "startJob w uri mediaFormat st = (Inr job, st')"
  shows "\<exists>u f n. calls st' = calls st @ [StartTranscriptionJob u f n]"
  using assms
  by (cases uri) (auto simp: startJob_def Let_def split: prod.splits)

lemma after_poll_failed:
  assumes "TranscriptionJobStatus j = TRANSCRIBE_FAILED"
  shows "after_poll w (Some j) st
           = (Inl (Error (''Transcription failure: '' @ to_string (FailureReason j))), st)"
  using assms by (simp add: after_poll_def TRANSCRIBE_FAILED_def TRANSCRIBE_COMPLETED_def)

text \<open>
  C1, as the code has it: the record is enriched with a truthy \<open>voicemail\<close>
  property, the job is started, and the polling loop ends on a job that reports
  \<open>FAILED\<close> with a reason. Then \<open>awaitJob\<close> throws
  \<open>Error('Transcription failure: ' + reason)\<close>; \<open>process\<close> publishes one alert, its
  last call, to \<open>NOTIFICATION_TOPIC\<close>, the topic of the voicemail notifications,
  whether SNS accepts it or not; and when that publish succeeds, \<open>process\<close> throws
  the error of \<open>awaitJob\<close>.
\<close>

theorem process_transcription_failure:
  assumes enriched: "enrich w cfg eventRecord (signal_agent w cfg start_run) = (Inr voicemail, st1)"
      and flag: "truthy (get_prop voicemail ''voicemail'')"
      and started: "startJob w (get_prop voicemail ''objectUrl'') Undefined st1 = (Inr job, st2)"
      and polled: "poll w (TranscriptionJobName job)
                     ((TRANSCRIBE_WAIT_SECONDS * 1000 - INITIAL_WAIT_MS) / 6) 6 None
                     (wait INITIAL_WAIT_MS st2) = (Inr (Some j), st3)"
      and failed: "TranscriptionJobStatus j = TRANSCRIBE_FAILED"
      and reason: "FailureReason j = Str reason"
  shows "awaitJob w (TranscriptionJobName job) TRANSCRIBE_WAIT_SECONDS st2
           = (Inl (Error (''Transcription failure: '' @ reason)), st3)
       \<and> (\<forall>receipt.
             sns_publish_reply w
               (calls st3 @ [SnsPublish (NOTIFICATION_TOPIC cfg)
                  (Str ''Voicemail processing failure'')
                  (alert_message (Error (''Transcription failure: '' @ reason)))])
             = Inr receipt \<longrightarrow>
             fst (process w cfg eventRecord)
               = Inl (Error (''Transcription failure: '' @ reason)))
       \<and> filter is_alert (calls (snd (process w cfg eventRecord)))
           = [SnsPublish (NOTIFICATION_TOPIC cfg) (Str ''Voicemail processing failure'')
                (alert_message (Error (''Transcription failure: '' @ reason)))]
       \<and> last (calls (snd (process w cfg eventRecord)))
           = SnsPublish (NOTIFICATION_TOPIC cfg) (Str ''Voicemail processing failure'')
                (alert_message (Error (''Transcription failure: '' @ reason)))"
proof -
  let ?err = "Error (''Transcription failure: '' @ reason)"
  let ?alert = "SnsPublish (NOTIFICATION_TOPIC cfg) (Str ''Voicemail processing failure'')
                  (alert_message ?err)"
  have a: "awaitJob w (TranscriptionJobName job) TRANSCRIBE_WAIT_SECONDS st2 = (Inl ?err, st3)"
    using polled after_poll_failed [OF failed, of w st3] reason
    by (simp add: awaitJob_def Let_def)
  then have "transcribeRecording w voicemail st1 = (Inl ?err, st3)"
    using started by (simp add: transcribeRecording_def)
  then have p: "pipeline w cfg eventRecord (signal_agent w cfg start_run) = (Inl ?err, st3)"
    using enriched flag by (simp add: pipeline_def)
  then have pr: "process w cfg eventRecord = on_failure w cfg ?err st3"
    by (simp add: process_def)
  have r: "fst (process w cfg eventRecord) = Inl ?err"
    if "sns_publish_reply w (calls st3 @ [?alert]) = Inr receipt" for receipt
    using pr that by (simp add: on_failure_result)
  have c: "calls (snd (process w cfg eventRecord)) = calls st3 @ [?alert]"
    using pr by (simp add: on_failure_result)
  obtain pattern startTime where
    c1: "calls st1 = [SnsPublish (AGENT_LOGIN_TOPIC cfg) Undefined login_params,
                     FilterLogEvents (CONNECT_LOG_GROUP cfg) pattern startTime]"
    using enrich_Inr_calls [OF enriched] by (auto simp: signal_agent_calls start_run_def)
  obtain u f n where c2: "calls st2 = calls st1 @ [StartTranscriptionJob u f n]"
    using startJob_Inr_calls [OF started] by blast
  have "filter is_publish (calls (snd (poll w (TranscriptionJobName job)
                ((TRANSCRIBE_WAIT_SECONDS * 1000 - INITIAL_WAIT_MS) / 6) 6 None
                (wait INITIAL_WAIT_MS st2))))
          = filter is_publish (calls (wait INITIAL_WAIT_MS st2))"
    by (rule poll_publishes)
  then have "filter is_publish (calls st3) = filter is_publish (calls (wait INITIAL_WAIT_MS st2))"
    unfolding polled by simp
  then have "filter is_publish (calls st3)
               = [SnsPublish (AGENT_LOGIN_TOPIC cfg) Undefined login_params]"
    using c1 c2 by (simp add: wait_def)
  then have "filter is_alert (calls st3) = []"
    using filter_alert_publish [of "calls st3"] by simp
  then have "filter is_alert (calls (snd (process w cfg eventRecord))) = [?alert]"
    using c by simp
  with a r c show ?thesis by simp
qed


lemma failed_world_run:
  "case enrich failed_world example_config example_record
          (signal_agent failed_world example_config start_run) of
     (Inr v, st1) \<Rightarrow>
        truthy (get_prop v ''voicemail'')
        \<and> (case startJob failed_world (get_prop v ''objectUrl'') Undefined st1 of
             (Inr job, st2) \<Rightarrow>
               (case poll failed_world (TranscriptionJobName job)
                       ((TRANSCRIBE_WAIT_SECONDS * 1000 - INITIAL_WAIT_MS) / 6) 6 None
                       (wait INITIAL_WAIT_MS st2) of
                  (Inr (Some j), st3) \<Rightarrow>
                     TranscriptionJobStatus j = TRANSCRIBE_FAILED
                     \<and> FailureReason j = Str ''Unsupported media format''
                     \<and> sns_publish_reply failed_world
                          (calls st3 @ [SnsPublish (NOTIFICATION_TOPIC example_config)
                             (Str ''Voicemail processing failure'')
                             (alert_message
                                (Error (''Transcription failure: '' @ ''Unsupported media format'')))])
                         = Inr Obj
                | (Inr None, st3) \<Rightarrow> False
                | (Inl e, st3) \<Rightarrow> False)
           | (Inl e, st2) \<Rightarrow> False)
   | (Inl e, st1) \<Rightarrow> False"
  by code_simp


text \<open>
  C1 as stated fails: the alert of a failed transcription goes to the topic that the
  voicemail notification of a successful run goes to.
\<close>

theorem alert_goes_to_notification_topic:
  "fst (process failed_world example_config example_record)
     = Inl (Error ''Transcription failure: Unsupported media format'')
   \<and> map topic_of (filter is_alert (calls (snd (process failed_world example_config example_record))))
       = [NOTIFICATION_TOPIC example_config]
   \<and> fst (process example_world example_config example_record) = Inr Success
   \<and> subject_of (last (calls (snd (process example_world example_config example_record))))
       = Str ''[ billing] Voice-mail from 0412 345 678''
   \<and> topic_of (last (calls (snd (process example_world example_config example_record))))
       = NOTIFICATION_TOPIC example_config
   \<and> map topic_of (filter is_alert (calls (snd (process failed_world example_config example_record))))
       = [topic_of (last (calls (snd (process example_world example_config example_record))))]"
  by code_simp

theorem process_transcription_failure_witness:
  "(\<exists>v st1 job st2 j st3.
       enrich failed_world example_config example_record
         (signal_agent failed_world example_config start_run) = (Inr v, st1)
     \<and> truthy (get_prop v ''voicemail'')
     \<and> startJob failed_world (get_prop v ''objectUrl'') Undefined st1 = (Inr job, st2)
     \<and> poll failed_world (TranscriptionJobName job)
         ((TRANSCRIBE_WAIT_SECONDS * 1000 - INITIAL_WAIT_MS) / 6) 6 None
         (wait INITIAL_WAIT_MS st2) = (Inr (Some j), st3)
     \<and> TranscriptionJobStatus j = TRANSCRIBE_FAILED
     \<and> FailureReason j = Str ''Unsupported media format''
     \<and> sns_publish_reply failed_world
         (calls st3 @ [SnsPublish (NOTIFICATION_TOPIC example_config)
            (Str ''Voicemail processing failure'')
            (alert_message
               (Error (''Transcription failure: '' @ ''Unsupported media format'')))])
        = Inr Obj)
   \<and> fst (process failed_world example_config example_record)
       = Inl (Error ''Transcription failure: Unsupported media format'')
   \<and> filter is_alert (calls (snd (process failed_world example_config example_record)))
       = [SnsPublish (Str ''arn:aws:sns:voicemail-notifications'')
            (Str ''Voicemail processing failure'')
            (alert_message (Error ''Transcription failure: Unsupported media format''))]"
proof -
  let ?W = failed_world and ?C = example_config
  note run = failed_world_run
  obtain r1 st1 where e1: "enrich ?W ?C example_record (signal_agent ?W ?C start_run) = (r1, st1)"
    by (cases "enrich ?W ?C example_record (signal_agent ?W ?C start_run)")
  obtain v where r1: "r1 = Inr v"
    using run unfolding e1 by (cases r1) simp_all
  have flag: "truthy (get_prop v ''voicemail'')"
    using run unfolding e1 r1 by simp
  obtain r2 st2 where e2: "startJob ?W (get_prop v ''objectUrl'') Undefined st1 = (r2, st2)"
    by (cases "startJob ?W (get_prop v ''objectUrl'') Undefined st1")
  obtain job where r2: "r2 = Inr job"
    using run unfolding e1 r1 by (cases r2) (simp_all add: e2)
  obtain r3 st3 where e3: "poll ?W (TranscriptionJobName job)
         ((TRANSCRIBE_WAIT_SECONDS * 1000 - INITIAL_WAIT_MS) / 6) 6 None
         (wait INITIAL_WAIT_MS st2) = (r3, st3)"
    by (cases "poll ?W (TranscriptionJobName job)
         ((TRANSCRIBE_WAIT_SECONDS * 1000 - INITIAL_WAIT_MS) / 6) 6 None
         (wait INITIAL_WAIT_MS st2)")
  have rest: "case r3 of Inl e \<Rightarrow> False
     | Inr None \<Rightarrow> False
     | Inr (Some j) \<Rightarrow> TranscriptionJobStatus j = TRANSCRIBE_FAILED
         \<and> FailureReason j = Str ''Unsupported media format''
         \<and> sns_publish_reply ?W
              (calls st3 @ [SnsPublish (NOTIFICATION_TOPIC ?C)
                 (Str ''Voicemail processing failure'')
                 (alert_message
                    (Error (''Transcription failure: '' @ ''Unsupported media format'')))])
             = Inr Obj"
    using run unfolding e1 r1 by (simp add: e2 r2 e3 del: poll.simps split: sum.splits option.splits)
  obtain j where r3: "r3 = Inr (Some j)"
    using rest by (cases r3) (simp_all split: option.splits)
  have f: "TranscriptionJobStatus j = TRANSCRIBE_FAILED"
    and g: "FailureReason j = Str ''Unsupported media format''"
    and p: "sns_publish_reply ?W
              (calls st3 @ [SnsPublish (NOTIFICATION_TOPIC ?C)
                 (Str ''Voicemail processing failure'')
                 (alert_message
                    (Error (''Transcription failure: '' @ ''Unsupported media format'')))])
             = Inr Obj"
    using rest unfolding r3 by simp_all
  have t: "NOTIFICATION_TOPIC ?C = Str ''arn:aws:sns:voicemail-notifications''"
    by (simp add: example_config_def)
  note h = e1 [unfolded r1] flag e2 [unfolded r2] e3 [unfolded r3] f g
  from process_transcription_failure [OF h] p
  have "fst (process ?W ?C example_record)
       = Inl (Error ''Transcription failure: Unsupported media format'')
     \<and> filter is_alert (calls (snd (process ?W ?C example_record)))
       = [SnsPublish (Str ''arn:aws:sns:voicemail-notifications'')
            (Str ''Voicemail processing failure'')
            (alert_message (Error ''Transcription failure: Unsupported media format''))]"
    unfolding t by simp
  with h p show ?thesis by blast
qed

subsection \<open>\<open>contactIdFromObjectKey\<close>\<close>

lemma star_nonempty: "\<exists>x t. star p i s = x # t"
  by (cases "star p i s") (cases s; simp)+

lemma star_longest:
  "list_all p ys \<Longrightarrow> \<not> p z \<Longrightarrow> \<exists>t. star p i (ys @ z # zs) = (i + length ys, z # zs) # t"
proof (induction ys arbitrary: i)
  case Nil
  then show ?case by simp
next
  case (Cons y ys)
  then obtain t where "star p (Suc i) (ys @ z # zs) = (Suc i + length ys, z # zs) # t"
    by fastforce
  with Cons.prems show ?case by simp
qed

text \<open>A greedy star followed by more: one more code unit, or the rest here.\<close>

lemma concat_star_Cons:
  "concat (map h (star p i (x # xs)))
     = (if p x then concat (map h (star p (Suc i) xs)) else []) @ h (i, x # xs)"
  by simp

lemma concat_star_Nil: "concat (map h (star p i [])) = h (i, [])"
  by simp

lemma concat_star_empty:
  assumes "\<And>j r. r = [] \<or> p (hd r) \<or> hd r \<noteq> z \<Longrightarrow> h (j, r) = []"
      and "dropWhile p s = [] \<or> hd (dropWhile p s) \<noteq> z"
  shows "concat (map h (star p i s)) = []"
  using assms(2)
proof (induction s arbitrary: i)
  case Nil
  show ?case using assms(1) by simp
next
  case (Cons x xs)
  show ?case
  proof (cases "p x")
    case True
    then have "concat (map h (star p (Suc i) xs)) = []"
      using Cons by simp
    moreover have "h (i, x # xs) = []" using True assms(1) by simp
    ultimately show ?thesis using True by simp
  next
    case False
    then have "x \<noteq> z" using Cons.prems by simp
    then have "h (i, x # xs) = []" using assms(1) by simp
    then show ?thesis using False by simp
  qed
qed

lemma ms_Seq_Cls_Cons:
  "ms (Seq (Cls p) r) (i, x # xs, c) = (if p x then ms r (Suc i, xs, c) else [])"
  by simp

lemma ms_Seq_Cls_Nil: "ms (Seq (Cls p) r) (i, [], c) = []"
  by simp

lemma ms_Seq_Group:
  "ms (Seq (Group n a) r) (i, s, c)
     = concat (map (\<lambda>(j, t, c'). ms r (j, t, c'(n \<mapsto> take (j - i) s))) (ms a (i, s, c)))"
  by (simp add: comp_def split_def)

lemma ms_Seq_Star:
  "ms (Seq (Star p) r) (i, s, c) = concat (map (\<lambda>(j, t). ms r (j, t, c)) (star p i s))"
  by (simp add: comp_def split_def)

lemma ms_Plus_Cons:
  "ms (Seq (Cls p) (Star q)) (i, x # xs, c)
     = (if p x then map (\<lambda>(j, t). (j, t, c)) (star q (Suc i) xs) else [])"
  by simp

lemma ms_Plus_Nil: "ms (Seq (Cls p) (Star q)) (i, [], c) = []"
  by simp

lemma object_key_tail_rest:
  "object_key_tail
     = Seq (Cls (lit CHR ''/''))
         (Seq (Group 1 (Seq (Cls contact_id_char) (Star contact_id_char))) key_rest)"
  by (simp add: object_key_tail_def key_rest_def)

lemma ms_tail_Nil: "ms object_key_tail (i, [], c) = []"
  by (simp add: object_key_tail_rest)

lemma ms_tail_other: "x \<noteq> CHR ''/'' \<Longrightarrow> ms object_key_tail (i, x # xs, c) = []"
  by (simp add: object_key_tail_rest lit_def)

lemma ms_tail_slash_Nil: "ms object_key_tail (i, [CHR ''/''], c) = []"
  by (simp add: object_key_tail_rest lit_def)

lemma ms_tail_slash_other:
  "\<not> contact_id_char y \<Longrightarrow> ms object_key_tail (i, CHR ''/'' # y # ys, c) = []"
  by (simp add: object_key_tail_rest lit_def)

lemma ms_tail_slash_id:
  "contact_id_char y \<Longrightarrow>
   ms object_key_tail (i, CHR ''/'' # y # ys, c)
     = concat (map (\<lambda>(j, r). ms key_rest (j, r, c(1 \<mapsto> take (j - Suc i) (y # ys))))
                 (star contact_id_char (Suc (Suc i)) ys))"
  by (simp add: object_key_tail_rest lit_def comp_def split_def del: concat_eq_Nil_conv)

lemma ms_rest_fails:
  "r = [] \<or> contact_id_char (hd r) \<or> hd r \<noteq> CHR ''_'' \<Longrightarrow> ms key_rest (j, r, c) = []"
  unfolding key_rest_def
  by (cases r) (auto simp: lit_def contact_id_char_def in_range_def)

lemma ms_tail_no_segment:
  assumes "\<not> segment_at t"
  shows "ms object_key_tail (i, t, c) = []"
proof (cases t)
  case Nil
  then show ?thesis by (simp add: ms_tail_Nil)
next
  case (Cons x xs)
  show ?thesis
  proof (cases "x = CHR ''/''")
    case False
    with Cons show ?thesis by (simp add: ms_tail_other)
  next
    case slash: True
    show ?thesis
    proof (cases xs)
      case Nil
      with Cons slash show ?thesis by (simp add: ms_tail_slash_Nil)
    next
      case xs: (Cons y ys)
      show ?thesis
      proof (cases "contact_id_char y")
        case False
        with Cons xs slash show ?thesis by (simp add: ms_tail_slash_other)
      next
        case True
        have d: "dropWhile contact_id_char ys = []
                 \<or> hd (dropWhile contact_id_char ys) \<noteq> CHR ''_''"
          using assms Cons slash xs True
          by (auto simp: segment_at_def split: list.splits)
        have "concat (map (\<lambda>(j, r). ms key_rest (j, r, c(1 \<mapsto> take (j - Suc i) (y # ys))))
                 (star contact_id_char (Suc (Suc i)) ys)) = []"
          by (rule concat_star_empty [where z = "CHR ''_''"]) (use d ms_rest_fails in auto)
        then show ?thesis
          using Cons xs slash True by (simp only: ms_tail_slash_id)
      qed
    qed
  qed
qed

lemma ms_key_Nil: "ms object_key_regex (i, [], c) = []"
  by (simp add: object_key_regex_def ms_tail_Nil del: ms.simps add: ms_Seq_Star)

lemma ms_key_Cons:
  "ms object_key_regex (i, x # xs, c)
     = (if dot x then ms object_key_regex (Suc i, xs, c) else [])
       @ ms object_key_tail (i, x # xs, c)"
  by (simp add: object_key_regex_def del: ms.simps add: ms_Seq_Star)

lemma ms_key_no_segment: "\<not> has_segment s \<Longrightarrow> ms object_key_regex (i, s, c) = []"
proof (induction s arbitrary: i)
  case Nil
  show ?case by (rule ms_key_Nil)
next
  case (Cons x xs)
  then have "ms object_key_regex (Suc i, xs, c) = []" and "\<not> segment_at (x # xs)"
    by simp_all
  then show ?case by (simp add: ms_key_Cons ms_tail_no_segment del: ms.simps)
qed

lemma has_segment_append: "CHR ''/'' \<notin> set a \<Longrightarrow> has_segment (a @ b) = has_segment b"
  by (induction a) (auto simp: segment_at_def)

lemma no_slash_no_segment: "CHR ''/'' \<notin> set s \<Longrightarrow> \<not> has_segment s"
  using has_segment_append [of s "[]"] by simp

lemma contact_id_char_not_slash: "contact_id_char x \<Longrightarrow> x \<noteq> CHR ''/''"
  by (auto simp: contact_id_char_def in_range_def)

lemma contact_id_char_not_underscore: "\<not> contact_id_char CHR ''_''"
  by (simp add: contact_id_char_def in_range_def)

lemma contact_id_char_dot: "contact_id_char x \<Longrightarrow> dot x"
  by (auto simp: contact_id_char_def in_range_def dot_def lf_def cr_def)

lemma ms_rest_nonempty: "\<exists>j r t. ms key_rest (i, CHR ''_'' # s, c) = (j, r, c) # t"
proof -
  obtain x t where "star dot (Suc i) s = x # t" using star_nonempty by blast
  then show ?thesis by (cases x) (simp add: key_rest_def lit_def)
qed

lemma ms_tail_segment:
  assumes "cid \<noteq> []" and "list_all contact_id_char cid"
  shows "\<exists>j r t. ms object_key_tail (i, CHR ''/'' # cid @ CHR ''_'' # suffix, c)
                   = (j, r, c(1 \<mapsto> cid)) # t"
proof -
  obtain y ys where cid: "cid = y # ys" using assms(1) by (cases cid) auto
  with assms(2) have y: "contact_id_char y" and ys: "list_all contact_id_char ys" by simp_all
  obtain t where
    s: "star contact_id_char (Suc (Suc i)) (ys @ CHR ''_'' # suffix)
          = (Suc (Suc i) + length ys, CHR ''_'' # suffix) # t"
    using star_longest [OF ys contact_id_char_not_underscore] by blast
  obtain j r t' where
    r: "ms key_rest (Suc (Suc i) + length ys, CHR ''_'' # suffix, c(1 \<mapsto> cid))
          = (j, r, c(1 \<mapsto> cid)) # t'"
    using ms_rest_nonempty by blast
  have "ms object_key_tail (i, CHR ''/'' # y # ys @ CHR ''_'' # suffix, c)
          = concat (map (\<lambda>(j, r). ms key_rest (j, r, c(1 \<mapsto> take (j - Suc i) (y # ys @ CHR ''_'' # suffix))))
                 (star contact_id_char (Suc (Suc i)) (ys @ CHR ''_'' # suffix)))"
    by (rule ms_tail_slash_id [OF y])
  also have "\<dots> = (j, r, c(1 \<mapsto> cid)) # t'
       @ concat (map (\<lambda>(j, r). ms key_rest (j, r, c(1 \<mapsto> take (j - Suc i) (y # ys @ CHR ''_'' # suffix)))) t)"
    unfolding s using r by (simp add: cid del: ms.simps)
  finally show ?thesis using cid by auto
qed

lemma ms_key_segment:
  assumes "list_all dot pre" and "cid \<noteq> []" and "list_all contact_id_char cid"
      and "\<not> has_segment suffix"
  shows "\<exists>j r t. ms object_key_regex (i, pre @ CHR ''/'' # cid @ CHR ''_'' # suffix, c)
                   = (j, r, c(1 \<mapsto> cid)) # t"
  using assms(1)
proof (induction pre arbitrary: i)
  case Nil
  have "CHR ''/'' \<notin> set (cid @ [CHR ''_''])"
    using assms(3) contact_id_char_not_slash by (auto simp: list_all_iff)
  then have "\<not> has_segment ((cid @ [CHR ''_'']) @ suffix)"
    using assms(4) has_segment_append by blast
  then have "ms object_key_regex (Suc i, cid @ CHR ''_'' # suffix, c) = []"
    using ms_key_no_segment by simp
  moreover obtain j r t where
    "ms object_key_tail (i, CHR ''/'' # cid @ CHR ''_'' # suffix, c) = (j, r, c(1 \<mapsto> cid)) # t"
    using ms_tail_segment [OF assms(2,3)] by blast
  ultimately have
    "ms object_key_regex (i, [] @ CHR ''/'' # cid @ CHR ''_'' # suffix, c) = (j, r, c(1 \<mapsto> cid)) # t"
    by (simp add: ms_key_Cons del: ms.simps)
  then show ?case by blast
next
  case (Cons x pre)
  then obtain j r t where
    "ms object_key_regex (Suc i, pre @ CHR ''/'' # cid @ CHR ''_'' # suffix, c)
       = (j, r, c(1 \<mapsto> cid)) # t"
    by fastforce
  moreover have "dot x" using Cons.prems by simp
  ultimately have
    "ms object_key_regex (i, (x # pre) @ CHR ''/'' # cid @ CHR ''_'' # suffix, c)
       = (j, r, c(1 \<mapsto> cid))
         # t @ ms object_key_tail (i, (x # pre) @ CHR ''/'' # cid @ CHR ''_'' # suffix, c)"
    by (simp add: ms_key_Cons del: ms.simps)
  then show ?case by blast
qed

lemma exec_from_no_segment: "\<not> has_segment s \<Longrightarrow> exec_from object_key_regex i s = None"
proof (induction s arbitrary: i)
  case Nil
  show ?case by (simp add: ms_key_Nil del: ms.simps)
next
  case (Cons x xs)
  then have "exec_from object_key_regex (Suc i) xs = None" by simp
  moreover have "ms object_key_regex (i, x # xs, Map.empty) = []"
    using Cons.prems by (rule ms_key_no_segment)
  ultimately show ?case by (simp del: ms.simps)
qed

text \<open>
  C5, as the code has it: for an object key \<open>pre/cid_suffix\<close> where \<open>cid\<close> is one or
  more characters of \<open>[A-Za-z0-9-]\<close>, \<open>pre\<close> holds no line terminator and \<open>suffix\<close>
  holds no further segment (as when it holds no \<open>/\<close>), \<open>contactIdFromObjectKey\<close>
  returns \<open>cid\<close>; and for a key that holds no underscore-delimited segment after a
  path separator, it throws the TypeError \<open>Unexpected objectKey format\<close>.
\<close>

theorem contactIdFromObjectKey_extracts:
  "(\<forall>pre cid suffix.
       list_all dot pre \<and> cid \<noteq> [] \<and> list_all contact_id_char cid \<and> \<not> has_segment suffix \<longrightarrow>
       contactIdFromObjectKey (pre @ ''/'' @ cid @ ''_'' @ suffix) = Inr cid)
   \<and> (\<forall>objectKey. \<not> has_segment objectKey \<longrightarrow>
         contactIdFromObjectKey objectKey = Inl (TypeError ''Unexpected objectKey format''))"
proof (intro conjI allI impI)
  fix pre cid suffix
  assume h: "list_all dot pre \<and> cid \<noteq> [] \<and> list_all contact_id_char cid \<and> \<not> has_segment suffix"
  let ?key = "pre @ CHR ''/'' # cid @ CHR ''_'' # suffix"
  obtain j r t where m: "ms object_key_regex (0, ?key, Map.empty) = (j, r, [1 \<mapsto> cid]) # t"
    using ms_key_segment [of pre cid suffix 0 Map.empty] h by blast
  have "exec_from object_key_regex 0 ?key = Some (take j ?key, [1 \<mapsto> cid])"
    using m by (cases ?key) (simp_all del: ms.simps)
  then show "contactIdFromObjectKey (pre @ ''/'' @ cid @ ''_'' @ suffix) = Inr cid"
    by (simp add: contactIdFromObjectKey_def exec_def)
next
  fix objectKey
  assume "\<not> has_segment objectKey"
  then show "contactIdFromObjectKey objectKey = Inl (TypeError ''Unexpected objectKey format'')"
    by (simp add: contactIdFromObjectKey_def exec_def exec_from_no_segment)
qed

theorem contactIdFromObjectKey_extracts_witness:
  "list_all dot ''some/path'' \<and> ''49ff0244-82f5'' \<noteq> []
   \<and> list_all contact_id_char ''49ff0244-82f5'' \<and> \<not> has_segment ''20180619T07:02_UTC.wav''
   \<and> contactIdFromObjectKey ''some/path/49ff0244-82f5_20180619T07:02_UTC.wav''
       = Inr ''49ff0244-82f5''
   \<and> \<not> has_segment ''recording.wav''
   \<and> contactIdFromObjectKey ''recording.wav'' = Inl (TypeError ''Unexpected objectKey format'')"
proof -
  have a: "list_all dot ''some/path''" by code_simp
  have b: "list_all contact_id_char ''49ff0244-82f5''" by code_simp
  have c: "\<not> has_segment ''20180619T07:02_UTC.wav''" by code_simp
  have d: "\<not> has_segment ''recording.wav''" by code_simp
  from contactIdFromObjectKey_extracts a b c d
  have "contactIdFromObjectKey (''some/path'' @ ''/'' @ ''49ff0244-82f5'' @ ''_'' @ ''20180619T07:02_UTC.wav'')
          = Inr ''49ff0244-82f5''"
    and "contactIdFromObjectKey ''recording.wav'' = Inl (TypeError ''Unexpected objectKey format'')"
    by blast+
  with a b c d show ?thesis by simp
qed

text \<open>
  C5 as stated fails: the pattern is greedy, so of two segments on a line the last
  one gives the contact id, and a line terminator before the segment hides it from
  an earlier line that has one.
\<close>

theorem contactIdFromObjectKey_takes_last_segment:
  "contactIdFromObjectKey (''a'' @ ''/'' @ ''abc'' @ ''_'' @ ''x/def_y'') = Inr ''def''
   \<and> contactIdFromObjectKey (''a'' @ ''/'' @ ''abc'' @ ''_'' @ ''x/def_y'') \<noteq> Inr ''abc''
   \<and> contactIdFromObjectKey ((''/x_'' @ [lf]) @ ''/'' @ ''abc'' @ ''_'' @ ''y'') = Inr ''x''
   \<and> contactIdFromObjectKey ((''/x_'' @ [lf]) @ ''/'' @ ''abc'' @ ''_'' @ ''y'') \<noteq> Inr ''abc''"
  by code_simp

lemma segment_at_iff:
  "segment_at s \<longleftrightarrow>
     (\<exists>cid b. s = ''/'' @ cid @ ''_'' @ b \<and> cid \<noteq> [] \<and> list_all contact_id_char cid)"
proof
  assume a: "segment_at s"
  then obtain cs where s: "s = CHR ''/'' # cs"
    by (cases s) (auto simp: segment_at_def)
  from a s obtain ds where d: "dropWhile contact_id_char cs = CHR ''_'' # ds"
    and t: "takeWhile contact_id_char cs \<noteq> []"
    by (auto simp: segment_at_def split: list.splits)
  have "cs = takeWhile contact_id_char cs @ CHR ''_'' # ds"
    using takeWhile_dropWhile_id [of contact_id_char cs] d by simp
  moreover have "list_all contact_id_char (takeWhile contact_id_char cs)"
    by (simp add: list_all_iff) (meson set_takeWhileD)
  ultimately show "\<exists>cid b. s = ''/'' @ cid @ ''_'' @ b \<and> cid \<noteq> [] \<and> list_all contact_id_char cid"
    using s t by (intro exI [of _ "takeWhile contact_id_char cs"] exI [of _ ds]) simp
next
  assume "\<exists>cid b. s = ''/'' @ cid @ ''_'' @ b \<and> cid \<noteq> [] \<and> list_all contact_id_char cid"
  then obtain cid b where s: "s = CHR ''/'' # cid @ CHR ''_'' # b" and n: "cid \<noteq> []"
    and c: "list_all contact_id_char cid" by auto
  have "takeWhile contact_id_char (cid @ CHR ''_'' # b) = cid"
    using c contact_id_char_not_underscore by (simp add: list_all_iff takeWhile_tail)
  moreover have "dropWhile contact_id_char (cid @ CHR ''_'' # b) = CHR ''_'' # b"
    using c contact_id_char_not_underscore by (simp add: list_all_iff dropWhile_append3)
  ultimately show "segment_at s" using s n by (simp add: segment_at_def)
qed

lemma has_segment_iff:
  "has_segment s \<longleftrightarrow>
     (\<exists>a cid b. s = a @ ''/'' @ cid @ ''_'' @ b \<and> cid \<noteq> [] \<and> list_all contact_id_char cid)"
proof (induction s)
  case Nil
  show ?case by simp
next
  case (Cons x xs)
  show ?case
  proof
    assume "has_segment (x # xs)"
    then consider "segment_at (x # xs)" | "has_segment xs" by auto
    then show "\<exists>a cid b. x # xs = a @ ''/'' @ cid @ ''_'' @ b \<and> cid \<noteq> []
                 \<and> list_all contact_id_char cid"
    proof cases
      case 1
      then obtain cid b where "x # xs = ''/'' @ cid @ ''_'' @ b" "cid \<noteq> []"
        "list_all contact_id_char cid"
        using segment_at_iff by blast
      then show ?thesis by (intro exI [of _ "[]"] exI [of _ cid] exI [of _ b]) simp
    next
      case 2
      then obtain a cid b where "xs = a @ ''/'' @ cid @ ''_'' @ b" "cid \<noteq> []"
        "list_all contact_id_char cid"
        using Cons.IH by blast
      then show ?thesis by (intro exI [of _ "x # a"] exI [of _ cid] exI [of _ b]) simp
    qed
  next
    assume "\<exists>a cid b. x # xs = a @ ''/'' @ cid @ ''_'' @ b \<and> cid \<noteq> []
              \<and> list_all contact_id_char cid"
    then obtain a cid b where e: "x # xs = a @ ''/'' @ cid @ ''_'' @ b" and n: "cid \<noteq> []"
      and c: "list_all contact_id_char cid" by blast
    show "has_segment (x # xs)"
    proof (cases a)
      case Nil
      with e n c have "segment_at (x # xs)" using segment_at_iff by auto
      then show ?thesis by simp
    next
      case (Cons y ys)
      with e have "xs = ys @ ''/'' @ cid @ ''_'' @ b" by simp
      with n c have "has_segment xs" using Cons.IH by blast
      then show ?thesis by simp
    qed
  qed
qed

subsection \<open>\<open>formatPhoneNumber\<close>\<close>

lemma exec_from_Bol_later: "exec_from (Seq Bol r) (Suc i) s = None"
  by (induction s arbitrary: i) simp_all

lemma national_ten_digits:
  assumes "ms national_regex (0, s, c) \<noteq> []"
  shows "length s = 10 \<and> list_all digit s"
  using assms unfolding national_regex_def
  by (auto simp: lit_def split: list.splits if_splits)

lemma mobile_ten_digits:
  assumes "ms mobile_regex (0, s, c) \<noteq> []"
  shows "length s = 10 \<and> list_all digit s"
  using assms unfolding mobile_regex_def
  by (auto simp: lit_def digit_def in_range_def split: list.splits if_splits)

lemma exec_anchored_None:
  assumes "ms r (0, s, Map.empty) = []" and "\<And>i t. exec_from r (Suc i) t = None"
  shows "exec r s = None"
  using assms by (cases s) (simp_all add: exec_def del: ms.simps)

lemma formatPhoneNumber_passes:
  assumes "exec intl_prefix_regex s = None" and "\<not> (length s = 10 \<and> list_all digit s)"
  shows "formatPhoneNumber s = s"
proof -
  have "ms mobile_regex (0, s, Map.empty) = []"
    using mobile_ten_digits assms(2) by blast
  moreover have "exec_from mobile_regex (Suc i) t = None" for i t
    unfolding mobile_regex_def by (rule exec_from_Bol_later)
  ultimately have m: "exec mobile_regex s = None"
    by (rule exec_anchored_None)
  have "ms national_regex (0, s, Map.empty) = []"
    using national_ten_digits assms(2) by blast
  moreover have "exec_from national_regex (Suc i) t = None" for i t
    unfolding national_regex_def by (rule exec_from_Bol_later)
  ultimately have n: "exec national_regex s = None"
    by (rule exec_anchored_None)
  show ?thesis using assms(1) m n by (simp add: formatPhoneNumber_def)
qed

text \<open>
  C6, as the code has it: the two examples of the documentation, and a string that
  does not match \<open>/\+61(\d+)/\<close> and is not ten digits is returned as it is.
\<close>

theorem formatPhoneNumber_examples_and_passthrough:
  "formatPhoneNumber ''+61412345678'' = ''0412 345 678''
   \<and> formatPhoneNumber ''+61812341234'' = ''08 1234 1234''
   \<and> (\<forall>s. exec intl_prefix_regex s = None \<and> \<not> (length s = 10 \<and> list_all digit s) \<longrightarrow>
          formatPhoneNumber s = s)"
proof (intro conjI allI impI)
  show "formatPhoneNumber ''+61412345678'' = ''0412 345 678''" by code_simp
  show "formatPhoneNumber ''+61812341234'' = ''08 1234 1234''" by code_simp
next
  fix s
  assume "exec intl_prefix_regex s = None \<and> \<not> (length s = 10 \<and> list_all digit s)"
  then show "formatPhoneNumber s = s" using formatPhoneNumber_passes by blast
qed

theorem formatPhoneNumber_examples_and_passthrough_witness:
  "exec intl_prefix_regex ''5550100'' = None
   \<and> \<not> (length ''5550100'' = 10 \<and> list_all digit ''5550100'')
   \<and> formatPhoneNumber ''5550100'' = ''5550100''"
proof -
  have a: "exec intl_prefix_regex ''5550100'' = None" by code_simp
  have b: "\<not> (length ''5550100'' = 10 \<and> list_all digit ''5550100'')" by simp
  from formatPhoneNumber_examples_and_passthrough a b
  have "formatPhoneNumber ''5550100'' = ''5550100''" by blast
  with a b show ?thesis by blast
qed

text \<open>
  C6 as stated fails: a local number of ten digits does not match the international
  prefix, and is regrouped.
\<close>

theorem formatPhoneNumber_regroups_local_number:
  "exec intl_prefix_regex ''0412345678'' = None
   \<and> formatPhoneNumber ''0412345678'' = ''0412 345 678''
   \<and> formatPhoneNumber ''0412345678'' \<noteq> ''0412345678''"
  by code_simp

subsection \<open>The login event and the pipeline\<close>

text \<open>
  The pipeline never reads the unhandled rejections, the calls of a run only grow, and
  the login event is the first call of a run. So a world that answers the first
  request of the invocation in another way gives the same result, the same calls and
  the same console.
\<close>

lemma issue_unhandled [simp]: "issue c (unhandled u st) = unhandled u (issue c st)"
  by (simp add: issue_def)

lemma wait_unhandled [simp]: "wait t (unhandled u st) = unhandled u (wait t st)"
  by (simp add: wait_def)

lemma publish_unhandled:
  "publish w t m s (unhandled u st) = apsnd (unhandled u) (publish w t m s st)"
  by (simp add: publish_def Let_def)

lemma filterLogEvents_unhandled:
  "filterLogEvents w g p t (unhandled u st) = apsnd (unhandled u) (filterLogEvents w g p t st)"
  by (simp add: filterLogEvents_def Let_def)

lemma getSignedUrl_unhandled:
  "getSignedUrl w operation b k e (unhandled u st) = apsnd (unhandled u) (getSignedUrl w operation b k e st)"
  by (simp add: getSignedUrl_def Let_def)

lemma startJob_unhandled:
  "startJob w uri f (unhandled u st) = apsnd (unhandled u) (startJob w uri f st)"
  by (cases uri) (simp_all add: startJob_def Let_def split: prod.splits)

lemma poll_unhandled:
  "poll w n t k job (unhandled u st) = apsnd (unhandled u) (poll w n t k job st)"
  by (induction k arbitrary: job st) (simp_all add: Let_def split: sum.splits)

lemma after_poll_unhandled:
  "after_poll w job (unhandled u st) = apsnd (unhandled u) (after_poll w job st)"
  by (simp add: after_poll_def Let_def split: option.splits sum.splits list.splits)

lemma awaitJob_unhandled:
  "awaitJob w n s (unhandled u st) = apsnd (unhandled u) (awaitJob w n s st)"
  by (simp add: awaitJob_def Let_def poll_unhandled after_poll_unhandled apsnd_def map_prod_def
        split: prod.splits sum.splits del: poll.simps)

lemma addCallAttributes_unhandled:
  "addCallAttributes w cfg v (unhandled u st) = apsnd (unhandled u) (addCallAttributes w cfg v st)"
  by (simp add: addCallAttributes_def getContactFlowLogs_def filterLogEvents_def Let_def
        split: sum.splits)

lemma enrich_unhandled:
  "enrich w cfg ev (unhandled u st) = apsnd (unhandled u) (enrich w cfg ev st)"
  by (simp add: enrich_def addCallAttributes_unhandled split: sum.splits)

lemma transcribeRecording_unhandled:
  "transcribeRecording w v (unhandled u st) = apsnd (unhandled u) (transcribeRecording w v st)"
  by (simp add: transcribeRecording_def startJob_unhandled awaitJob_unhandled apsnd_def map_prod_def
        split: prod.splits sum.splits)

lemma getPresignedS3Url_unhandled:
  "getPresignedS3Url w cfg v (unhandled u st) = apsnd (unhandled u) (getPresignedS3Url w cfg v st)"
  by (simp add: getPresignedS3Url_def getSignedUrl_unhandled)

lemma sendNotification_unhandled:
  "sendNotification w cfg v (unhandled u st) = apsnd (unhandled u) (sendNotification w cfg v st)"
  by (simp add: sendNotification_def publish_unhandled notificationMessage_def)

lemma pipeline_unhandled:
  "pipeline w cfg ev (unhandled u st) = apsnd (unhandled u) (pipeline w cfg ev st)"
  by (simp add: pipeline_def enrich_unhandled transcribeRecording_unhandled
        getPresignedS3Url_unhandled sendNotification_unhandled apsnd_def map_prod_def
        split: prod.splits sum.splits)

lemma on_failure_unhandled:
  "on_failure w cfg err (unhandled u st) = apsnd (unhandled u) (on_failure w cfg err st)"
  by (simp add: on_failure_def publish_def Let_def issue_def split: prod.splits sum.splits)

lemma publish_grows: "calls st \<noteq> [] \<Longrightarrow> calls (snd (publish w t m s st)) \<noteq> []"
  by (simp add: publish_def Let_def)

lemma poll_grows: "calls st \<noteq> [] \<Longrightarrow> calls (snd (poll w n t k job st)) \<noteq> []"
  by (induction k arbitrary: job st) (simp_all add: Let_def split: sum.splits)

lemma after_poll_grows: "calls st \<noteq> [] \<Longrightarrow> calls (snd (after_poll w job st)) \<noteq> []"
  by (simp add: after_poll_def Let_def split: option.splits sum.splits list.splits)

lemma awaitJob_grows: "calls st \<noteq> [] \<Longrightarrow> calls (snd (awaitJob w n s st)) \<noteq> []"
proof -
  assume a: "calls st \<noteq> []"
  let ?p = "poll w n ((s * 1000 - INITIAL_WAIT_MS) / 6) 6 None (wait INITIAL_WAIT_MS st)"
  have "calls (snd ?p) \<noteq> []" by (rule poll_grows) simp
  then show ?thesis
    using after_poll_grows [of "snd ?p" w]
    by (cases ?p) (auto simp: awaitJob_def Let_def split: sum.splits simp del: poll.simps)
qed

lemma startJob_grows: "calls st \<noteq> [] \<Longrightarrow> calls (snd (startJob w uri f st)) \<noteq> []"
  by (cases uri) (simp_all add: startJob_def Let_def split: prod.splits)

lemma transcribeRecording_grows:
  "calls st \<noteq> [] \<Longrightarrow> calls (snd (transcribeRecording w v st)) \<noteq> []"
  using startJob_grows [of st w "get_prop v ''objectUrl''" Undefined] awaitJob_grows
  by (cases "startJob w (get_prop v ''objectUrl'') Undefined st")
     (auto simp: transcribeRecording_def split: sum.splits)

lemma enrich_grows: "calls st \<noteq> [] \<Longrightarrow> calls (snd (enrich w cfg ev st)) \<noteq> []"
  by (auto simp: enrich_def addCallAttributes_def getContactFlowLogs_def filterLogEvents_def
        Let_def split: sum.splits)

lemma getPresignedS3Url_grows:
  "calls st \<noteq> [] \<Longrightarrow> calls (snd (getPresignedS3Url w cfg v st)) \<noteq> []"
  by (simp add: getPresignedS3Url_def getSignedUrl_def Let_def)

lemma sendNotification_grows:
  "calls st \<noteq> [] \<Longrightarrow> calls (snd (sendNotification w cfg v st)) \<noteq> []"
  by (simp add: sendNotification_def publish_grows)

lemma pipeline_grows:
  assumes "calls st \<noteq> []"
  shows "calls (snd (pipeline w cfg ev st)) \<noteq> []"
proof -
  obtain r1 st1 where e: "enrich w cfg ev st = (r1, st1)" by (cases "enrich w cfg ev st")
  then have c1: "calls st1 \<noteq> []" using enrich_grows [OF assms, of w cfg ev] by simp
  show ?thesis
  proof (cases r1)
    case (Inl err)
    with e c1 show ?thesis by (simp add: pipeline_def)
  next
    case (Inr v)
    show ?thesis
    proof (cases "truthy (get_prop v ''voicemail'')")
      case False
      with e c1 Inr show ?thesis by (simp add: pipeline_def)
    next
      case True
      obtain r2 st2 where t: "transcribeRecording w v st1 = (r2, st2)"
        by (cases "transcribeRecording w v st1")
      then have c2: "calls st2 \<noteq> []" using transcribeRecording_grows [OF c1, of w v] by simp
      show ?thesis
      proof (cases r2)
        case (Inl err)
        with e Inr True t c2 show ?thesis by (simp add: pipeline_def)
      next
        case tr: (Inr transcript)
        obtain r3 st3 where g: "getPresignedS3Url w cfg (v(''transcript'' \<mapsto> transcript)) st2 = (r3, st3)"
          by (cases "getPresignedS3Url w cfg (v(''transcript'' \<mapsto> transcript)) st2")
        then have c3: "calls st3 \<noteq> []"
          using getPresignedS3Url_grows [OF c2, of w cfg "v(''transcript'' \<mapsto> transcript)"] by simp
        show ?thesis
        proof (cases r3)
          case (Inl err)
          with e Inr True t tr g c3 show ?thesis by (simp add: pipeline_def)
        next
          case url: (Inr preSignedUrl)
          have "calls (snd (sendNotification w cfg
                  (v(''transcript'' \<mapsto> transcript, ''preSignedUrl'' \<mapsto> preSignedUrl)) st3)) \<noteq> []"
            using c3 by (rule sendNotification_grows)
          with e Inr True t tr g url show ?thesis
            by (auto simp: pipeline_def split: prod.splits sum.splits)
        qed
      qed
    qed
  qed
qed

lemma publish_later:
  assumes "\<And>h. length h \<noteq> 1 \<Longrightarrow> f h = sns_publish_reply w h" and "calls st \<noteq> []"
  shows "publish (w\<lparr>sns_publish_reply := f\<rparr>) t m s st = publish w t m s st"
proof -
  have "length (calls st @ [SnsPublish t s m]) \<noteq> 1" using assms(2) by (cases "calls st") auto
  then show ?thesis using assms(1) by (simp add: publish_def Let_def)
qed

lemma poll_other_world:
  "poll (w\<lparr>sns_publish_reply := f\<rparr>) n t k job st = poll w n t k job st"
  by (induction k arbitrary: job st) (simp_all add: Let_def split: sum.splits)

lemma addCallAttributes_other_world:
  "addCallAttributes (w\<lparr>sns_publish_reply := f\<rparr>) cfg v st = addCallAttributes w cfg v st"
  by (simp add: addCallAttributes_def getContactFlowLogs_def filterLogEvents_def Let_def)

lemma enrich_other_world:
  "enrich (w\<lparr>sns_publish_reply := f\<rparr>) cfg ev st = enrich w cfg ev st"
  by (simp add: enrich_def getS3ObjectInfo_def addCallAttributes_other_world Let_def
        split: sum.splits)

lemma startJob_other_world:
  "startJob (w\<lparr>sns_publish_reply := f\<rparr>) uri m st = startJob w uri m st"
  by (cases uri) (simp_all add: startJob_def Let_def)

lemma after_poll_other_world:
  "after_poll (w\<lparr>sns_publish_reply := f\<rparr>) job st = after_poll w job st"
  by (simp add: after_poll_def Let_def split: option.splits)

lemma awaitJob_other_world:
  "awaitJob (w\<lparr>sns_publish_reply := f\<rparr>) n s st = awaitJob w n s st"
  by (simp add: awaitJob_def poll_other_world after_poll_other_world Let_def del: poll.simps
        split: prod.splits sum.splits)

lemma transcribeRecording_other_world:
  "transcribeRecording (w\<lparr>sns_publish_reply := f\<rparr>) v st = transcribeRecording w v st"
  by (simp add: transcribeRecording_def startJob_other_world awaitJob_other_world
        split: prod.splits sum.splits)

lemma getPresignedS3Url_other_world:
  "getPresignedS3Url (w\<lparr>sns_publish_reply := f\<rparr>) cfg v st = getPresignedS3Url w cfg v st"
  by (simp add: getPresignedS3Url_def getSignedUrl_def Let_def)

lemma sendNotification_later:
  assumes "\<And>h. length h \<noteq> 1 \<Longrightarrow> f h = sns_publish_reply w h" and "calls st \<noteq> []"
  shows "sendNotification (w\<lparr>sns_publish_reply := f\<rparr>) cfg v st = sendNotification w cfg v st"
  using publish_later [OF assms]
  by (simp add: sendNotification_def notificationMessage_def formatDate_def)

lemma pipeline_later:
  assumes f: "\<And>h. length h \<noteq> 1 \<Longrightarrow> f h = sns_publish_reply w h" and "calls st \<noteq> []"
  shows "pipeline (w\<lparr>sns_publish_reply := f\<rparr>) cfg ev st = pipeline w cfg ev st"
proof -
  have "sendNotification (w\<lparr>sns_publish_reply := f\<rparr>) cfg v' st3 = sendNotification w cfg v' st3"
    if "enrich w cfg ev st = (Inr v, st1)" "transcribeRecording w v st1 = (Inr tr, st2)"
       "getPresignedS3Url w cfg v'' st2 = (Inr url, st3)" for v v' v'' st1 st2 st3 tr url
  proof -
    have "calls st1 \<noteq> []" using enrich_grows [OF assms(2), of w cfg ev] that(1) by simp
    then have "calls st2 \<noteq> []" using transcribeRecording_grows [of st1 w v] that(2) by simp
    then have "calls st3 \<noteq> []" using getPresignedS3Url_grows [of st2 w cfg v''] that(3) by simp
    then show ?thesis using sendNotification_later [OF f] by blast
  qed
  then show ?thesis
    by (simp add: pipeline_def enrich_other_world transcribeRecording_other_world
          getPresignedS3Url_other_world split: prod.splits sum.splits)
qed

lemma on_failure_later:
  assumes "\<And>h. length h \<noteq> 1 \<Longrightarrow> f h = sns_publish_reply w h" and "calls st \<noteq> []"
  shows "on_failure (w\<lparr>sns_publish_reply := f\<rparr>) cfg err st = on_failure w cfg err st"
proof -
  have "calls (st\<lparr>console_errors := console_errors st @ [err]\<rparr>) \<noteq> []"
    using assms(2) by simp
  from publish_later [OF assms(1) this] show ?thesis
    by (simp add: on_failure_def Let_def)
qed

lemma signal_agent_state:
  "\<exists>u. signal_agent w cfg start_run
         = unhandled u
             (issue (SnsPublish (AGENT_LOGIN_TOPIC cfg) Undefined login_params) start_run)"
proof (cases "sns_publish_reply w [SnsPublish (AGENT_LOGIN_TOPIC cfg) Undefined login_params]")
  case (Inl e)
  then have "signal_agent w cfg start_run
         = unhandled [e]
             (issue (SnsPublish (AGENT_LOGIN_TOPIC cfg) Undefined login_params) start_run)"
    by (simp add: signal_agent_def sendLoginEvent_def publish_def Let_def login_params_def
          start_run_def issue_def)
  then show ?thesis by blast
next
  case (Inr r)
  then have "signal_agent w cfg start_run
         = unhandled []
             (issue (SnsPublish (AGENT_LOGIN_TOPIC cfg) Undefined login_params) start_run)"
    by (simp add: signal_agent_def sendLoginEvent_def publish_def Let_def login_params_def
          start_run_def issue_def)
  then show ?thesis by blast
qed

lemma process_ignores_login_outcome:
  assumes f: "\<And>h. length h \<noteq> 1 \<Longrightarrow> f h = sns_publish_reply w h"
  shows "fst (process (w\<lparr>sns_publish_reply := f\<rparr>) cfg ev) = fst (process w cfg ev)
       \<and> calls (snd (process (w\<lparr>sns_publish_reply := f\<rparr>) cfg ev)) = calls (snd (process w cfg ev))
       \<and> console_errors (snd (process (w\<lparr>sns_publish_reply := f\<rparr>) cfg ev))
           = console_errors (snd (process w cfg ev))"
proof -
  let ?w' = "w\<lparr>sns_publish_reply := f\<rparr>"
  let ?s = "issue (SnsPublish (AGENT_LOGIN_TOPIC cfg) Undefined login_params) start_run"
  have s: "calls ?s \<noteq> []" by simp
  obtain u where u: "signal_agent w cfg start_run = unhandled u ?s"
    using signal_agent_state by blast
  obtain u' where u': "signal_agent ?w' cfg start_run = unhandled u' ?s"
    using signal_agent_state [of ?w' cfg] by auto
  obtain r st where p: "pipeline w cfg ev ?s = (r, st)" by (cases "pipeline w cfg ev ?s")
  then have c: "calls st \<noteq> []" using pipeline_grows [OF s, of w cfg ev] by simp
  have p1: "pipeline w cfg ev (signal_agent w cfg start_run) = (r, unhandled u st)"
    using p by (simp add: u pipeline_unhandled)
  have p2: "pipeline ?w' cfg ev (signal_agent ?w' cfg start_run) = (r, unhandled u' st)"
    using p by (simp add: u' pipeline_unhandled pipeline_later [OF f s])
  show ?thesis
  proof (cases r)
    case (Inr x)
    with p1 p2 show ?thesis by (simp add: process_def)
  next
    case (Inl err)
    have "process w cfg ev = apsnd (unhandled u) (on_failure w cfg err st)"
      using p1 Inl by (simp add: process_def on_failure_unhandled)
    moreover have "process ?w' cfg ev = apsnd (unhandled u') (on_failure w cfg err st)"
      using p2 Inl by (simp add: process_def on_failure_unhandled on_failure_later [OF f c])
    ultimately show ?thesis by (cases "on_failure w cfg err st") simp
  qed
qed

end
